theory Spec2Isabelle
  imports Main "HOL-Library.AList"
begin

section \<open>Python values and mappings\<close>

text \<open>
  The extractor, the normalizer and \<^verbatim>\<open>Standard.__init__\<close> write into the mappings
  they are handed, and several names can refer to one mapping. A mapping is therefore an
  object of a store, and a value that is a mapping is a reference \<open>VRef\<close> to it. Lists
  are never written to by the code modelled here, so a list is a value. Strings are
  ASCII strings; YAML floats and dates are left out.
\<close>

datatype val =
    VNull
  | VBool bool
  | VInt int
  | VStr string
  | VList "val list"
  | VRef nat

text \<open>
  A Python \<^verbatim>\<open>dict\<close> keeps its keys in insertion order: an association list with
  distinct keys, read with \<open>map_of\<close>, written with \<open>AList.update\<close> (an existing key
  keeps its place, a new one goes last) and \<open>AList.delete\<close>. Keys are strings.
\<close>

type_synonym dict = "(string \<times> val) list"

definition has_key :: "dict \<Rightarrow> string \<Rightarrow> bool" where
  "has_key d k = (map_of d k \<noteq> None)"

text \<open>\<^verbatim>\<open>d.update(other)\<close>: the items of \<open>other\<close> are stored in their order.\<close>

definition dict_update :: "dict \<Rightarrow> dict \<Rightarrow> dict" where
  "dict_update d other = fold (\<lambda>kv. AList.update (fst kv) (snd kv)) other d"

section \<open>standard.py\<close>

text \<open>
  \<^verbatim>\<open>"[{}] ".format(x)\<close> inserts \<^verbatim>\<open>format(x, "")\<close>: a \<^verbatim>\<open>str\<close> is inserted as
  it is, \<^verbatim>\<open>None\<close> and the booleans by their names. What the interpreter prints for any
  other object is the parameter \<open>repr\<close>.
\<close>

fun py_format :: "(val \<Rightarrow> string) \<Rightarrow> val \<Rightarrow> string" where
  "py_format repr (VStr s) = s"
| "py_format repr VNull = ''None''"
| "py_format repr (VBool b) = (if b then ''True'' else ''False'')"
| "py_format repr v = repr v"

text \<open>
  The attributes of a \<^verbatim>\<open>Standard\<close> object. \<^verbatim>\<open>dict.get\<close> gives \<^verbatim>\<open>None\<close> for a
  missing key.
\<close>

record Standard =
  s_id :: val
  s_name :: val
  s_version :: val
  s_check :: val
  s_types :: val

definition dict_get :: "dict \<Rightarrow> string \<Rightarrow> val" where
  "dict_get d k = (case map_of d k of None \<Rightarrow> VNull | Some v \<Rightarrow> v)"

text \<open>
  \<^verbatim>\<open>Standard.__init__(self, standard_dict)\<close> (standard.py, lines 9 to 25). The
  dictionary is the caller's object: the model returns it as the call leaves it, beside
  the new object.
\<close>

definition Standard_init :: "(val \<Rightarrow> string) \<Rightarrow> dict \<Rightarrow> dict \<times> Standard" where
  "Standard_init repr standard_dict =
     (let d = (if \<not> has_key standard_dict ''id''
               then AList.update ''id'' (VStr '''') standard_dict
               else AList.update ''id''
                      (VStr (''['' @ py_format repr (dict_get standard_dict ''id'') @ ''] ''))
                      standard_dict)
      in (d, \<lparr> s_id = dict_get d ''id'',
               s_name = dict_get d ''name'',
               s_version = dict_get d ''version'',
               s_check = dict_get d ''check'',
               s_types = dict_get d ''types'' \<rparr>))"

section \<open>Strings\<close>

text \<open>\<^verbatim>\<open>s.startswith(p)\<close>, \<^verbatim>\<open>sub in s\<close> and \<^verbatim>\<open>s.endswith(p)\<close> on strings.\<close>

fun starts_with :: "string \<Rightarrow> string \<Rightarrow> bool" where
  "starts_with s [] = True"
| "starts_with [] (p # ps) = False"
| "starts_with (c # s) (p # ps) = (c = p \<and> starts_with s ps)"

fun contains_str :: "string \<Rightarrow> string \<Rightarrow> bool" where
  "contains_str [] sub = (sub = [])"
| "contains_str (c # s) sub = (starts_with (c # s) sub \<or> contains_str s sub)"

definition ends_with :: "string \<Rightarrow> string \<Rightarrow> bool" where
  "ends_with s p = starts_with (rev s) (rev p)"

text \<open>
  The characters \<^verbatim>\<open>str.isspace\<close> accepts among the ASCII ones: tab, line feed,
  vertical tab, form feed, carriage return, the four separators 28 to 31 and the space.
\<close>

definition is_space :: "char \<Rightarrow> bool" where
  "is_space c = (let n = (of_char c :: nat) in (9 \<le> n \<and> n \<le> 13) \<or> (28 \<le> n \<and> n \<le> 32))"

definition lstrip :: "string \<Rightarrow> string" where
  "lstrip s = dropWhile is_space s"

text \<open>\<^verbatim>\<open>s.split(sep)\<close> for a separator of one character: empty fields are kept.\<close>

fun split_on :: "char \<Rightarrow> string \<Rightarrow> string list" where
  "split_on sep [] = [[]]"
| "split_on sep (c # s) =
     (if c = sep then [] # split_on sep s
      else (case split_on sep s of
              [] \<Rightarrow> [[c]]
            | w # ws \<Rightarrow> (c # w) # ws))"

text \<open>\<^verbatim>\<open>s.split()\<close>: the words between runs of white space; \<^verbatim>\<open>s.strip().split()\<close> is the same list.\<close>

fun split_ws_aux :: "string \<Rightarrow> string \<Rightarrow> string list" where
  "split_ws_aux w [] = (if w = [] then [] else [rev w])"
| "split_ws_aux w (c # s) =
     (if is_space c then (if w = [] then split_ws_aux [] s else rev w # split_ws_aux [] s)
      else split_ws_aux (c # w) s)"

definition split_ws :: "string \<Rightarrow> string list" where
  "split_ws s = split_ws_aux [] s"

section \<open>Errors and the store\<close>

text \<open>
  Every exception the modelled code can raise is a value. \<open>RuntimeError\<close> carries the key
  and the value of its message (yamlhelper.py, line 480), \<open>SystemExit\<close>,
  \<open>AnsibleError\<close> and the two parser errors their message.
\<close>

datatype error =
    TypeError
  | AttributeError
  | KeyError
  | IndexError
  | RuntimeError string val
  | SystemExit string
  | AnsibleParserError string
  | LaterAnsibleError string
  | AnsibleError string
  | ValueError

text \<open>
  The store: the mappings by address, the next free address, and the module global
  \<^verbatim>\<open>ansible.parsing.mod_args.BUILTIN_TASKS\<close>, which \<^verbatim>\<open>normalize_task\<close> reassigns.
  An exception leaves the store as it was when it was raised, so every operation
  returns the store beside its result or error.
\<close>

record store =
  objs :: "nat \<Rightarrow> dict"
  nxt :: nat
  BUILTIN_TASKS :: "string set"

text \<open>A new mapping (\<^verbatim>\<open>{}\<close>, \<^verbatim>\<open>dict(block)\<close>, a dict display) takes the next free address.\<close>

definition alloc :: "dict \<Rightarrow> store \<Rightarrow> nat \<times> store" where
  "alloc d s = (nxt s, s\<lparr>objs := (objs s)(nxt s := d), nxt := Suc (nxt s)\<rparr>)"

definition put :: "nat \<Rightarrow> dict \<Rightarrow> store \<Rightarrow> store" where
  "put a d s = s\<lparr>objs := (objs s)(a := d)\<rparr>"

text \<open>Truth value testing (\<^verbatim>\<open>if v:\<close>).\<close>

fun truthy :: "store \<Rightarrow> val \<Rightarrow> bool" where
  "truthy s VNull = False"
| "truthy s (VBool b) = b"
| "truthy s (VInt i) = (i \<noteq> 0)"
| "truthy s (VStr t) = (t \<noteq> [])"
| "truthy s (VList xs) = (xs \<noteq> [])"
| "truthy s (VRef a) = (objs s a \<noteq> [])"

text \<open>
  \<^verbatim>\<open>for x in v\<close>: a list gives its items, a mapping its keys, a string its characters;
  \<^verbatim>\<open>None\<close>, a boolean and an integer are not iterable.
\<close>

fun py_iter :: "store \<Rightarrow> val \<Rightarrow> error + val list" where
  "py_iter s (VList xs) = Inr xs"
| "py_iter s (VRef a) = Inr (map (\<lambda>kv. VStr (fst kv)) (objs s a))"
| "py_iter s (VStr t) = Inr (map (\<lambda>c. VStr [c]) t)"
| "py_iter s v = Inl TypeError"

text \<open>
  \<^verbatim>\<open>k in v\<close> for a string \<open>k\<close>: a key of a mapping, a substring of a string, an item of a
  list; a \<^verbatim>\<open>TypeError\<close> for \<^verbatim>\<open>None\<close>, a boolean and an integer.
\<close>

fun py_in :: "store \<Rightarrow> string \<Rightarrow> val \<Rightarrow> error + bool" where
  "py_in s k (VRef a) = Inr (has_key (objs s a) k)"
| "py_in s k (VStr t) = Inr (contains_str t k)"
| "py_in s k (VList xs) = Inr (List.member xs (VStr k))"
| "py_in s k v = Inl TypeError"

text \<open>
  \<^verbatim>\<open>v[k] = x\<close> for a string \<open>k\<close>: only a mapping takes it (a list wants an integer index,
  the scalars support no item assignment).
\<close>

fun set_item :: "val \<Rightarrow> string \<Rightarrow> val \<Rightarrow> store \<Rightarrow> error + store" where
  "set_item (VRef a) k x s = Inr (put a (AList.update k x (objs s a)) s)"
| "set_item v k x s = Inl TypeError"

section \<open>yamlhelper.py: the task extractor\<close>

definition BLOCK_NAME_TO_ACTION_TYPE_MAP :: "(string \<times> string) list" where
  "BLOCK_NAME_TO_ACTION_TYPE_MAP =
     [(''tasks'', ''task''), (''handlers'', ''handler''), (''pre_tasks'', ''task''),
      (''post_tasks'', ''task''), (''block'', ''meta''), (''rescue'', ''meta''),
      (''always'', ''meta'')]"

text \<open>
  \<^verbatim>\<open>add_action_type(actions, action_type, action_meta=None)\<close> (lines 486 to 493), over
  the items of \<open>actions\<close>. The right-hand side of line 489 is evaluated first, so a
  missing \<open>action_type\<close> is a \<^verbatim>\<open>KeyError\<close> before the item is touched. The items
  are returned as they came: the same references, now to the updated mappings.
\<close>

fun add_action_type :: "val list \<Rightarrow> string \<Rightarrow> val \<Rightarrow> store \<Rightarrow> (error + val list) \<times> store" where
  "add_action_type [] action_type action_meta s = (Inr [], s)"
| "add_action_type (action # rest) action_type action_meta s =
     (case map_of BLOCK_NAME_TO_ACTION_TYPE_MAP action_type of
        None \<Rightarrow> (Inl KeyError, s)
      | Some t \<Rightarrow>
          (case set_item action ''__ansible_action_type__'' (VStr t) s of
             Inl e \<Rightarrow> (Inl e, s)
           | Inr s1 \<Rightarrow>
               (case (if truthy s1 action_meta
                      then set_item action ''__ansible_action_meta__'' action_meta s1
                      else Inr s1) of
                  Inl e \<Rightarrow> (Inl e, s1)
                | Inr s2 \<Rightarrow>
                    (case add_action_type rest action_type action_meta s2 of
                       (Inl e, s3) \<Rightarrow> (Inl e, s3)
                     | (Inr results, s3) \<Rightarrow> (Inr (action # results), s3)))))"

text \<open>
  The body of the inner loop of \<^verbatim>\<open>extract_from_list\<close> (lines 471 to 482) for one
  \<open>block\<close>: \<^verbatim>\<open>dict(block)\<close> is a new mapping, from which the four keys of
  \<^verbatim>\<open>delete_meta_keys\<close> are popped.
\<close>

definition meta_data_of :: "dict \<Rightarrow> string \<Rightarrow> dict" where
  "meta_data_of block candidate =
     fold AList.delete [candidate, ''__line__'', ''__file__'', ''__ansible_action_type__''] block"

fun extract_candidates :: "val \<Rightarrow> string list \<Rightarrow> store \<Rightarrow> (error + val list) \<times> store" where
  "extract_candidates block [] s = (Inr [], s)"
| "extract_candidates block (candidate # rest) s =
     (case block of
        VRef a \<Rightarrow>
          (case map_of (objs s a) candidate of
             None \<Rightarrow> extract_candidates block rest s
           | Some (VList xs) \<Rightarrow>
               (case alloc (meta_data_of (objs s a) candidate) s of
                  (meta_data, s1) \<Rightarrow>
                    (case add_action_type xs candidate (VRef meta_data) s1 of
                       (Inl e, s2) \<Rightarrow> (Inl e, s2)
                     | (Inr found, s2) \<Rightarrow>
                         (case extract_candidates block rest s2 of
                            (Inl e, s3) \<Rightarrow> (Inl e, s3)
                          | (Inr results, s3) \<Rightarrow> (Inr (found @ results), s3))))
           | Some VNull \<Rightarrow> extract_candidates block rest s
           | Some v \<Rightarrow> (Inl (RuntimeError candidate v), s))
      | _ \<Rightarrow> extract_candidates block rest s)"

text \<open>\<^verbatim>\<open>extract_from_list(blocks, candidates)\<close> (lines 468 to 483), over the items of \<open>blocks\<close>.\<close>

fun extract_from_list :: "val list \<Rightarrow> string list \<Rightarrow> store \<Rightarrow> (error + val list) \<times> store" where
  "extract_from_list [] candidates s = (Inr [], s)"
| "extract_from_list (block # rest) candidates s =
     (case extract_candidates block candidates s of
        (Inl e, s1) \<Rightarrow> (Inl e, s1)
      | (Inr found, s1) \<Rightarrow>
          (case extract_from_list rest candidates s1 of
             (Inl e, s2) \<Rightarrow> (Inl e, s2)
           | (Inr results, s2) \<Rightarrow> (Inr (found @ results), s2)))"

text \<open>
  The two list comprehensions that end \<^verbatim>\<open>action_tasks\<close> (lines 445 and 449).
  \<^verbatim>\<open>all(k not in task for k in ...)\<close> tests the keys in order and stops at the first
  one found; \<^verbatim>\<open>task.keys()\<close> exists for a mapping only.
\<close>

fun all_not_in :: "store \<Rightarrow> val \<Rightarrow> string list \<Rightarrow> error + bool" where
  "all_not_in s task [] = Inr True"
| "all_not_in s task (k # ks) =
     (case py_in s k task of
        Inl e \<Rightarrow> Inl e
      | Inr found \<Rightarrow> if found then Inr False else all_not_in s task ks)"

definition isdisjoint_keys :: "store \<Rightarrow> string list \<Rightarrow> val \<Rightarrow> error + bool" where
  "isdisjoint_keys s allowed task =
     (case task of
        VRef a \<Rightarrow> Inr (list_all (\<lambda>k. \<not> has_key (objs s a) k) allowed)
      | _ \<Rightarrow> Inl AttributeError)"

fun filter_tasks :: "(val \<Rightarrow> error + bool) \<Rightarrow> val list \<Rightarrow> error + val list" where
  "filter_tasks keep [] = Inr []"
| "filter_tasks keep (task # rest) =
     (case keep task of
        Inl e \<Rightarrow> Inl e
      | Inr b \<Rightarrow>
          (case filter_tasks keep rest of
             Inl e \<Rightarrow> Inl e
           | Inr kept \<Rightarrow> Inr (if b then task # kept else kept)))"

text \<open>
  \<^verbatim>\<open>action_tasks(yaml, file)\<close> (lines 434 to 449); \<open>filetype\<close> is
  \<^verbatim>\<open>file["filetype"]\<close>.
\<close>

definition action_tasks :: "val \<Rightarrow> string \<Rightarrow> store \<Rightarrow> (error + val list) \<times> store" where
  "action_tasks yaml filetype s =
     (case py_iter s yaml of
        Inl e \<Rightarrow> (Inl e, s)
      | Inr items \<Rightarrow>
          (case (if filetype = ''tasks'' \<or> filetype = ''handlers''
                 then add_action_type items filetype VNull s
                 else extract_from_list items
                        [''tasks'', ''handlers'', ''pre_tasks'', ''post_tasks''] s) of
             (Inl e, s1) \<Rightarrow> (Inl e, s1)
           | (Inr tasks, s1) \<Rightarrow>
               (case extract_from_list tasks [''block'', ''rescue'', ''always''] s1 of
                  (Inl e, s2) \<Rightarrow> (Inl e, s2)
                | (Inr found, s2) \<Rightarrow>
                    (case filter_tasks
                            (\<lambda>task. all_not_in s2 task [''block'', ''rescue'', ''always''])
                            (tasks @ found) of
                       Inl e \<Rightarrow> (Inl e, s2)
                     | Inr tasks' \<Rightarrow>
                         (case filter_tasks
                                 (isdisjoint_keys s2
                                    [''include'', ''include_tasks'', ''import_playbook'',
                                     ''import_tasks''])
                                 tasks' of
                            Inl e \<Rightarrow> (Inl e, s2)
                          | Inr result \<Rightarrow> (Inr result, s2))))))"

section \<open>yamlhelper.py: the task normalizer\<close>

text \<open>
  \<^verbatim>\<open>ModuleArgsParser(task).parse()\<close> belongs to Ansible, not to this repository: it
  is a parameter of the model. It reads the task's mapping in the store (and
  \<^verbatim>\<open>BUILTIN_TASKS\<close> there) and returns the module name, a new mapping of arguments
  and the delegation target, or raises.
\<close>

type_synonym parser = "store \<Rightarrow> dict \<Rightarrow> error + (string \<times> dict \<times> val)"

text \<open>\<^verbatim>\<open>d.pop(k, default)\<close>: the value and the mapping without the key.\<close>

definition dict_pop :: "dict \<Rightarrow> string \<Rightarrow> val \<Rightarrow> val \<times> dict" where
  "dict_pop d k dflt =
     (case map_of d k of None \<Rightarrow> (dflt, d) | Some v \<Rightarrow> (v, AList.delete k d))"

text \<open>
  Lines 375 to 393 of \<^verbatim>\<open>normalize_task\<close>, all that runs before the parser: the
  action type is read and deleted from the task, the three metadata keys are popped
  into \<^verbatim>\<open>ansible_meta\<close> (the default \<^verbatim>\<open>{}\<close> of line 385 is a new empty mapping
  whether it is used or not), and \<^verbatim>\<open>BUILTIN_TASKS\<close> is extended by the custom
  modules. Returns the action type, \<^verbatim>\<open>ansible_meta\<close> and the store.
\<close>

definition normalize_prepare ::
  "nat \<Rightarrow> string list option \<Rightarrow> store \<Rightarrow> val \<times> dict \<times> store" where
  "normalize_prepare task custom_modules s =
     (let custom = (case custom_modules of None \<Rightarrow> [] | Some ms \<Rightarrow> ms);
          ansible_action_type =
            (case map_of (objs s task) ''__ansible_action_type__'' of
               None \<Rightarrow> VStr ''task''
             | Some v \<Rightarrow> v);
          t0 = AList.delete ''__ansible_action_type__'' (objs s task);
          (line, t1) = dict_pop t0 ''__line__'' VNull;
          (file, t2) = dict_pop t1 ''__file__'' VNull;
          (empty, s1) = alloc [] s;
          (meta, t3) = dict_pop t2 ''__ansible_action_meta__'' (VRef empty);
          s2 = put task t3 s1
      in (ansible_action_type,
          [(''__line__'', line), (''__file__'', file), (''__ansible_action_meta__'', meta)],
          s2\<lparr>BUILTIN_TASKS := BUILTIN_TASKS s2 \<union> set custom\<rparr>))"

text \<open>
  The loop of lines 406 to 412: every item of the task is copied into \<open>normalized\<close>
  but those under the four reserved keys and under the module's own name.
\<close>

definition passthrough :: "dict \<Rightarrow> string \<Rightarrow> dict \<Rightarrow> dict" where
  "passthrough task_items action normalized =
     fold (\<lambda>kv n.
             if fst kv \<in> set [''action'', ''local_action'', ''args'', ''delegate_to'']
                \<or> fst kv = action
             then n
             else AList.update (fst kv) (snd kv) n)
          task_items normalized"

text \<open>
  Lines 427 to 429: the metadata goes back in where it is true in the sense of
  \<^verbatim>\<open>if v:\<close>.
\<close>

definition add_back_meta :: "store \<Rightarrow> dict \<Rightarrow> dict \<Rightarrow> dict" where
  "add_back_meta s ansible_meta normalized =
     fold (\<lambda>kv n. if truthy s (snd kv) then AList.update (fst kv) (snd kv) n else n)
          ansible_meta normalized"

text \<open>
  Modelled from the spec: the exception class \<^verbatim>\<open>LaterAnsibleError\<close> of
  \<^verbatim>\<open>ansiblelater/exceptions.py\<close>, which is not among the sources. The spec (4.4 and 7)
  calls it the module-grammar error that the normalizer raises when the external parser
  cannot resolve the task's action form; line 399 builds it from the parser's error, whose
  message it carries here.
\<close>

definition later_ansible_error :: "string \<Rightarrow> error" where
  "later_ansible_error m = LaterAnsibleError m"

text \<open>
  \<^verbatim>\<open>normalize_task(task, filename, custom_modules=None)\<close> (lines 369 to 431). \<open>task\<close>
  is the address of the caller's mapping. The result is the content of the new mapping
  \<open>normalized\<close>; its \<^verbatim>\<open>action\<close> entry refers to a second new mapping in the store.
  An \<^verbatim>\<open>AnsibleParserError\<close> of the parser is raised again as
  \<^verbatim>\<open>LaterAnsibleError\<close>; \<^verbatim>\<open>.strip()\<close> on a \<^verbatim>\<open>_raw_params\<close> that is no string is
  an \<^verbatim>\<open>AttributeError\<close>.
\<close>

definition normalize_task ::
  "parser \<Rightarrow> nat \<Rightarrow> string \<Rightarrow> string list option \<Rightarrow> store \<Rightarrow> (error + dict) \<times> store" where
  "normalize_task mod_arg_parser task filename custom_modules s =
     (case normalize_prepare task custom_modules s of
        (ansible_action_type, ansible_meta, s1) \<Rightarrow>
          (case mod_arg_parser s1 (objs s1 task) of
             Inl (AnsibleParserError m) \<Rightarrow> (Inl (later_ansible_error m), s1)
           | Inl e \<Rightarrow> (Inl e, s1)
           | Inr (action0, arguments0, delegate_to) \<Rightarrow>
               (let action = (if has_key arguments0 ''_uses_shell'' then ''shell'' else action0);
                    arguments1 = (if has_key arguments0 ''_uses_shell''
                                  then AList.delete ''_uses_shell'' arguments0
                                  else arguments0);
                    normalized1 = passthrough (objs s1 task) action [(''delegate_to'', delegate_to)];
                    (action_ref, s2) = alloc [(''__ansible_module__'', VStr action)] s1;
                    normalized2 = AList.update ''action'' (VRef action_ref) normalized1
                in case (case map_of arguments1 ''_raw_params'' of
                           None \<Rightarrow> Inr (VList [], arguments1)
                         | Some (VStr raw) \<Rightarrow>
                             Inr (VList (map VStr (split_ws raw)),
                                  AList.delete ''_raw_params'' arguments1)
                         | Some v \<Rightarrow> Inl AttributeError) of
                     Inl e \<Rightarrow> (Inl e, s2)
                   | Inr (raw_arguments, arguments2) \<Rightarrow>
                       (let s3 = put action_ref
                                   (dict_update
                                      (AList.update ''__ansible_arguments__'' raw_arguments
                                         (objs s2 action_ref))
                                      arguments2) s2;
                            normalized3 = AList.update ''__file__'' (VStr filename) normalized2;
                            normalized4 = AList.update ''__ansible_action_type__''
                                            ansible_action_type normalized3
                        in (Inr (add_back_meta s3 ansible_meta normalized4), s3)))))"

section \<open>yamlhelper.py: the dependency resolver\<close>

text \<open>
  The resolver only reads the parsed data, so here a parsed value is a tree: a mapping
  is the list of its items in order, with string keys.
\<close>

datatype yaml =
    YNull
  | YBool bool
  | YInt int
  | YStr string
  | YList "yaml list"
  | YDict "(string \<times> yaml) list"

text \<open>A dependency edge, the dictionary \<^verbatim>\<open>{"path": ..., "type": ...}\<close>.\<close>

record edge =
  e_path :: string
  e_type :: string

text \<open>\<^verbatim>\<open>constants.DEFAULT_ROLES_PATH\<close>: unset, one string of paths, or a list of paths.\<close>

datatype roles_path = RolesNone | RolesStr string | RolesList "string list"

text \<open>
  What the resolver asks of the file system and of Ansible, none of it code of this
  repository: \<^verbatim>\<open>os.path.exists\<close>, \<^verbatim>\<open>os.path.isdir\<close>, \<^verbatim>\<open>os.path.abspath\<close>,
  \<^verbatim>\<open>os.path.expanduser\<close>; \<^verbatim>\<open>DataLoader.path_dwim\<close> for a string (\<open>dwim\<close>) and for
  any other value (\<open>dwim_other\<close>, which may raise); the roles path;
  \<^verbatim>\<open>DataLoader.load_from_file\<close>; \<^verbatim>\<open>Templar.template\<close> with the loader's base
  directory, the value, the variables and \<^verbatim>\<open>fail_on_undefined\<close>; \<^verbatim>\<open>str\<close> of a value
  that is no string; Ansible's \<^verbatim>\<open>split_args\<close>. Where one of them raises, it answers
  \<open>Inl\<close> of the exception.
\<close>

record env =
  path_exists :: "string \<Rightarrow> bool"
  path_isdir :: "string \<Rightarrow> bool"
  abspath :: "string \<Rightarrow> string"
  expanduser :: "string \<Rightarrow> string"
  dwim :: "string \<Rightarrow> string \<Rightarrow> string"
  dwim_other :: "string \<Rightarrow> yaml \<Rightarrow> error + string"
  DEFAULT_ROLES_PATH :: roles_path
  load_from_file :: "string \<Rightarrow> error + yaml"
  templar_template :: "string \<Rightarrow> yaml \<Rightarrow> (string \<times> string) list \<Rightarrow> bool \<Rightarrow> error + yaml"
  yaml_str :: "yaml \<Rightarrow> string"
  split_args :: "string \<Rightarrow> error + string list"

text \<open>
  The directories handed to \<^verbatim>\<open>module_loader.add_directory\<close>, in the order of the
  calls: process-wide state, which an exception leaves as it is.
\<close>

type_synonym registry = "string list"

subsection \<open>Python operations on parsed values\<close>

fun truthy_y :: "yaml \<Rightarrow> bool" where
  "truthy_y YNull = False"
| "truthy_y (YBool b) = b"
| "truthy_y (YInt i) = (i \<noteq> 0)"
| "truthy_y (YStr s) = (s \<noteq> [])"
| "truthy_y (YList xs) = (xs \<noteq> [])"
| "truthy_y (YDict d) = (d \<noteq> [])"

text \<open>\<^verbatim>\<open>for x in v\<close>.\<close>

fun iter_y :: "yaml \<Rightarrow> error + yaml list" where
  "iter_y (YList xs) = Inr xs"
| "iter_y (YDict d) = Inr (map (\<lambda>kv. YStr (fst kv)) d)"
| "iter_y (YStr s) = Inr (map (\<lambda>c. YStr [c]) s)"
| "iter_y v = Inl TypeError"

text \<open>\<^verbatim>\<open>k in d\<close> and \<^verbatim>\<open>d.get(k, default)\<close> on the items of a mapping.\<close>

definition has_key_y :: "(string \<times> yaml) list \<Rightarrow> string \<Rightarrow> bool" where
  "has_key_y d k = (map_of d k \<noteq> None)"

text \<open>\<^verbatim>\<open>k in v\<close> for a string \<open>k\<close>.\<close>

fun in_y :: "string \<Rightarrow> yaml \<Rightarrow> error + bool" where
  "in_y k (YDict d) = Inr (has_key_y d k)"
| "in_y k (YStr s) = Inr (contains_str s k)"
| "in_y k (YList xs) = Inr (List.member xs (YStr k))"
| "in_y k v = Inl TypeError"



definition get_y :: "(string \<times> yaml) list \<Rightarrow> string \<Rightarrow> yaml \<Rightarrow> yaml" where
  "get_y d k dflt = (case map_of d k of None \<Rightarrow> dflt | Some v \<Rightarrow> v)"

subsection \<open>Paths\<close>

text \<open>\<^verbatim>\<open>os.path.join\<close> of \<^verbatim>\<open>posixpath\<close>: an absolute component starts over.\<close>

definition join2 :: "string \<Rightarrow> string \<Rightarrow> string" where
  "join2 a b =
     (if starts_with b ''/'' then b
      else if a = [] \<or> ends_with a ''/'' then a @ b
      else a @ ''/'' @ b)"

definition os_path_join :: "string \<Rightarrow> string list \<Rightarrow> string" where
  "os_path_join a ps = foldl join2 a ps"

text \<open>
  \<^verbatim>\<open>os.path.dirname\<close>: the part up to the last slash, without its trailing slashes
  unless it consists of slashes only.
\<close>

definition dirname :: "string \<Rightarrow> string" where
  "dirname p =
     (let head = rev (dropWhile (\<lambda>c. c \<noteq> CHR ''/'') (rev p))
      in if head \<noteq> [] \<and> \<not> list_all (\<lambda>c. c = CHR ''/'') head
         then rev (dropWhile (\<lambda>c. c = CHR ''/'') (rev head))
         else head)"

text \<open>
  \<^verbatim>\<open>path_dwim(basedir, given)\<close> (lines 54 to 57) hands \<open>given\<close> to the loader,
  whatever it is.
\<close>

definition path_dwim :: "env \<Rightarrow> string \<Rightarrow> yaml \<Rightarrow> error + string" where
  "path_dwim E basedir given =
     (case given of YStr s \<Rightarrow> Inr (dwim E basedir s) | _ \<Rightarrow> dwim_other E basedir given)"

subsection \<open>tokenize\<close>

text \<open>
  The loop of lines 142 to 148: a token with \<^verbatim>\<open>=\<close> is a keyword argument as long as
  no other token came before it. The state is \<open>(args, kwargs, nonkvfound)\<close>.
\<close>

definition split_kv :: "string \<Rightarrow> string \<times> string" where
  "split_kv arg = (takeWhile (\<lambda>c. c \<noteq> CHR ''='') arg, tl (dropWhile (\<lambda>c. c \<noteq> CHR ''='') arg))"

fun tokenize_args ::
  "string list \<Rightarrow> string list \<times> (string \<times> string) list \<times> bool
     \<Rightarrow> string list \<times> (string \<times> string) list \<times> bool" where
  "tokenize_args [] st = st"
| "tokenize_args (arg # rest) (args, kwargs, nonkvfound) =
     (if CHR ''='' \<in> set arg \<and> \<not> nonkvfound
      then tokenize_args rest
             (args, AList.update (fst (split_kv arg)) (snd (split_kv arg)) kwargs, nonkvfound)
      else tokenize_args rest (args @ [arg], kwargs, True))"

text \<open>
  \<^verbatim>\<open>tokenize(line)\<close> (lines 131 to 149). \<^verbatim>\<open>tokens[0]\<close> on an empty list is an
  \<^verbatim>\<open>IndexError\<close>.
\<close>

definition tokenize :: "string \<Rightarrow> error + (string \<times> string list \<times> (string \<times> string) list)" where
  "tokenize line =
     (let tokens = split_on CHR '' '' (lstrip line);
          tokens1 = (case tokens of t # ts \<Rightarrow> (if t = ''-'' then ts else tokens) | [] \<Rightarrow> [])
      in case tokens1 of
           [] \<Rightarrow> Inl IndexError
         | t # ts \<Rightarrow>
             (case (if t = ''action:'' \<or> t = ''local_action:'' then ts else tokens1) of
                [] \<Rightarrow> Inl IndexError
              | c # rest \<Rightarrow>
                  (case tokenize_args rest ([], [], False) of
                     (args, kwargs, nonkvfound) \<Rightarrow>
                       Inr (filter (\<lambda>x. x \<noteq> CHR '':'') c, args, kwargs))))"

subsection \<open>Children of includes\<close>

text \<open>The value as an f-string writes it: a string as it is, else its \<^verbatim>\<open>str\<close>.\<close>

definition fstr :: "env \<Rightarrow> yaml \<Rightarrow> string" where
  "fstr E v = (case v of YStr s \<Rightarrow> s | _ \<Rightarrow> yaml_str E v)"

text \<open>
  \<^verbatim>\<open>_include_children(basedir, k, v, parent_type)\<close> (lines 228 to 235): the first
  positional token is resolved; when that path does not exist and \<open>basedir\<close> does not end
  in \<^verbatim>\<open>tasks\<close>, the whole value \<open>v\<close> is resolved against \<^verbatim>\<open>basedir/../tasks\<close>.
\<close>

definition include_children ::
  "env \<Rightarrow> string \<Rightarrow> string \<Rightarrow> yaml \<Rightarrow> string \<Rightarrow> error + edge list" where
  "include_children E basedir k v parent_type =
     (case tokenize (k @ '': '' @ fstr E v) of
        Inl e \<Rightarrow> Inl e
      | Inr (command, args, kwargs) \<Rightarrow>
          (case args of
             [] \<Rightarrow> Inl IndexError
           | a0 # _ \<Rightarrow>
               (if \<not> path_exists E (dwim E basedir a0) \<and> \<not> ends_with basedir ''tasks''
                then (case path_dwim E (os_path_join basedir [''..'', ''tasks'']) v of
                        Inl e \<Rightarrow> Inl e
                      | Inr result \<Rightarrow> Inr [\<lparr>e_path = result, e_type = parent_type\<rparr>])
                else Inr [\<lparr>e_path = dwim E basedir a0, e_type = parent_type\<rparr>])))"

text \<open>
  \<^verbatim>\<open>append_children(taskhandler, basedir, k, parent_type, results)\<close> (lines 278 to
  283): one call of \<^verbatim>\<open>path_dwim\<close>, no look at the file system.
\<close>

definition append_children ::
  "env \<Rightarrow> yaml \<Rightarrow> string \<Rightarrow> string \<Rightarrow> string \<Rightarrow> edge list \<Rightarrow> error + edge list" where
  "append_children E taskhandler basedir k parent_type results =
     (case path_dwim E basedir taskhandler of
        Inl e \<Rightarrow> Inl e
      | Inr p \<Rightarrow>
          Inr (results @
               [\<lparr>e_path = p, e_type = (if parent_type = ''playbook'' then k else parent_type)\<rparr>]))"

subsection \<open>Roles\<close>

definition load_library_if_exists :: "env \<Rightarrow> string \<Rightarrow> registry \<Rightarrow> registry" where
  "load_library_if_exists E path reg = (if path_exists E path then reg @ [path] else reg)"

definition search_locations :: "roles_path \<Rightarrow> string list" where
  "search_locations rp =
     (case rp of
        RolesNone \<Rightarrow> []
      | RolesStr s \<Rightarrow> (if s = [] then [] else split_on CHR '':'' s)
      | RolesList ls \<Rightarrow> ls)"

text \<open>
  \<^verbatim>\<open>_rolepath(basedir, role)\<close> (lines 309 to 337): the first candidate that is a
  directory, whose \<^verbatim>\<open>library\<close> is registered when it exists.
\<close>

definition possible_paths :: "env \<Rightarrow> string \<Rightarrow> string \<Rightarrow> string list" where
  "possible_paths E basedir role =
     [dwim E basedir (os_path_join ''roles'' [role]),
      dwim E basedir role,
      dwim E basedir (os_path_join ''..'' [''..'', ''..'', ''roles'', role]),
      dwim E basedir (os_path_join ''..'' [''..'', role])]
     @ map (\<lambda>loc. dwim E (expanduser E loc) role) (search_locations (DEFAULT_ROLES_PATH E))"

definition rolepath :: "env \<Rightarrow> string \<Rightarrow> string \<Rightarrow> registry \<Rightarrow> string option \<times> registry" where
  "rolepath E basedir role reg =
     (case List.find (path_isdir E) (possible_paths E basedir role) of
        None \<Rightarrow> (None, reg)
      | Some role_path \<Rightarrow>
          (Some role_path,
           if role_path \<noteq> []
           then load_library_if_exists E (os_path_join role_path [''library'']) reg
           else reg))"

text \<open>
  The inner loop of \<^verbatim>\<open>_look_for_role_files\<close> (lines 348 to 352) for one directory
  \<open>th\<close>: the edge's type is \<open>th\<close> itself.
\<close>

definition role_file :: "env \<Rightarrow> string \<Rightarrow> string \<Rightarrow> string \<Rightarrow> edge list" where
  "role_file E role_path th main =
     (if path_exists E (os_path_join role_path [th, main @ ''.yml''])
      then [\<lparr>e_path = os_path_join role_path [th, main @ ''.yml''], e_type = th\<rparr>]
      else if path_exists E (os_path_join role_path [th, main @ ''.yaml''])
      then [\<lparr>e_path = os_path_join role_path [th, main @ ''.yaml''], e_type = th\<rparr>]
      else [])"

text \<open>
  \<^verbatim>\<open>_look_for_role_files(basedir, role, main="main")\<close> (lines 340 to 353).
  \<^verbatim>\<open>os.path.join("roles", role)\<close> raises \<^verbatim>\<open>TypeError\<close> for a role that is no
  string, and so does \<^verbatim>\<open>main + ext\<close> for a \<open>main\<close> that is none.
\<close>

definition look_for_role_files ::
  "env \<Rightarrow> string \<Rightarrow> yaml \<Rightarrow> yaml \<Rightarrow> registry \<Rightarrow> (error + edge list) \<times> registry" where
  "look_for_role_files E basedir role main reg =
     (case role of
        YStr r \<Rightarrow>
          (case rolepath E basedir r reg of
             (None, reg1) \<Rightarrow> (Inr [], reg1)
           | (Some role_path, reg1) \<Rightarrow>
               (if role_path = [] then (Inr [], reg1)
                else (case main of
                        YStr m \<Rightarrow>
                          (Inr (role_file E role_path ''tasks'' m
                                @ role_file E role_path ''handlers'' m
                                @ role_file E role_path ''meta'' m), reg1)
                      | _ \<Rightarrow> (Inl TypeError, reg1))))
      | _ \<Rightarrow> (Inl TypeError, reg))"

text \<open>
  The loop of \<^verbatim>\<open>_roles_children\<close> (lines 288 to 300) over the roles.
  \<^verbatim>\<open>role.get("role", role.get("name"))\<close> is the value under \<^verbatim>\<open>role\<close>, else the one
  under \<^verbatim>\<open>name\<close>.
\<close>

fun roles_loop ::
  "env \<Rightarrow> string \<Rightarrow> yaml \<Rightarrow> yaml list \<Rightarrow> edge list \<Rightarrow> registry
     \<Rightarrow> (error + edge list) \<times> registry" where
  "roles_loop E basedir main [] results reg = (Inr results, reg)"
| "roles_loop E basedir main (role # rest) results reg =
     (case (case role of
              YDict d \<Rightarrow>
                (if has_key_y d ''role'' \<or> has_key_y d ''name''
                 then (case (case map_of d ''tags'' of
                               None \<Rightarrow> Inr True
                             | Some tags \<Rightarrow>
                                 (case in_y ''skip_ansible_later'' tags of
                                    Inl e \<Rightarrow> Inl e
                                  | Inr found \<Rightarrow> Inr (\<not> found))) of
                         Inl e \<Rightarrow> (Inl e, reg)
                       | Inr wanted \<Rightarrow>
                           (if wanted
                            then look_for_role_files E basedir
                                   (get_y d ''role'' (get_y d ''name'' YNull)) main reg
                            else (Inr [], reg)))
                 else (Inl (SystemExit (''role dict '' @ yaml_str E role
                                        @ '' does not contain a '' @ [CHR 0x27] @ ''role''
                                        @ [CHR 0x27] @ '' or '' @ [CHR 0x27] @ ''name''
                                        @ [CHR 0x27] @ '' key'')), reg))
            | _ \<Rightarrow> look_for_role_files E basedir role main reg) of
        (Inl e, reg1) \<Rightarrow> (Inl e, reg1)
      | (Inr found, reg1) \<Rightarrow> roles_loop E basedir main rest (results @ found) reg1)"

text \<open>\<^verbatim>\<open>_roles_children(basedir, k, v, parent_type, main="main")\<close> (lines 286 to 301).\<close>

definition roles_children ::
  "env \<Rightarrow> string \<Rightarrow> string \<Rightarrow> yaml \<Rightarrow> string \<Rightarrow> yaml \<Rightarrow> registry
     \<Rightarrow> (error + edge list) \<times> registry" where
  "roles_children E basedir k v parent_type main reg =
     (case iter_y v of
        Inl e \<Rightarrow> (Inl e, reg)
      | Inr roles \<Rightarrow> roles_loop E basedir main roles [] reg)"

subsection \<open>Children of task lists\<close>

text \<open>\<^verbatim>\<open>th[key]\<close> for a string key: only a mapping takes it.\<close>

fun subscript_y :: "yaml \<Rightarrow> string \<Rightarrow> error + yaml" where
  "subscript_y (YDict d) key = (case map_of d key of None \<Rightarrow> Inl KeyError | Some x \<Rightarrow> Inr x)"
| "subscript_y v key = Inl TypeError"

text \<open>\<^verbatim>\<open>x.get(key, default)\<close>: only a mapping has the method.\<close>

fun dot_get :: "yaml \<Rightarrow> string \<Rightarrow> yaml \<Rightarrow> error + yaml" where
  "dot_get (YDict d) key dflt = Inr (get_y d key dflt)"
| "dot_get v key dflt = Inl AttributeError"

text \<open>
  The tests of the chain of lines 241 to 269, in its order: the first of the keys that
  is \<^verbatim>\<open>in th\<close>, if any.
\<close>

definition th_keys :: "string list" where
  "th_keys = [''include'', ''include_tasks'', ''import_playbook'', ''import_tasks'',
              ''import_role'', ''include_role'', ''block'']"

fun first_key :: "string list \<Rightarrow> yaml \<Rightarrow> error + string option" where
  "first_key [] th = Inr None"
| "first_key (key # keys) th =
     (case in_y key th of
        Inl e \<Rightarrow> Inl e
      | Inr found \<Rightarrow> (if found then Inr (Some key) else first_key keys th))"

text \<open>
  A bound for the recursion through \<^verbatim>\<open>block\<close>, \<^verbatim>\<open>rescue\<close> and \<^verbatim>\<open>always\<close>: a value
  outweighs what iterating it gives, and a mapping outweighs its values.
\<close>

fun weight :: "yaml \<Rightarrow> nat" where
  "weight (YStr s) = Suc (length s)"
| "weight (YList xs) = Suc (sum_list (map weight xs) + length xs)"
| "weight (YDict d) = Suc (sum_list (map (\<lambda>kv. weight (snd kv)) d) + length d)"
| "weight v = 0"

definition entry_weight :: "yaml \<Rightarrow> nat" where
  "entry_weight th = (case th of YDict d \<Rightarrow> weight th | _ \<Rightarrow> 0)"

definition entries_weight :: "yaml list \<Rightarrow> nat" where
  "entries_weight ths = sum_list (map (\<lambda>th. Suc (entry_weight th)) ths)"

text \<open>
  \<^verbatim>\<open>_taskshandlers_children(basedir, k, v, parent_type)\<close> (lines 238 to 275): the
  function, its loop over \<open>v\<close> with the results so far, the body of the loop for one
  entry \<open>th\<close>, and
  \<^verbatim>\<open>if key in th: results.extend(_taskshandlers_children(basedir, k, th[key], parent_type))\<close>
  (lines 271 to 274; for \<^verbatim>\<open>block\<close> the test is the one of line 269, which has
  succeeded).
\<close>

function taskshandlers_children ::
    "env \<Rightarrow> string \<Rightarrow> string \<Rightarrow> yaml \<Rightarrow> string \<Rightarrow> registry
       \<Rightarrow> (error + edge list) \<times> registry"
  and th_loop ::
    "env \<Rightarrow> string \<Rightarrow> string \<Rightarrow> string \<Rightarrow> yaml list \<Rightarrow> edge list \<Rightarrow> registry
       \<Rightarrow> (error + edge list) \<times> registry"
  and th_entry ::
    "env \<Rightarrow> string \<Rightarrow> string \<Rightarrow> string \<Rightarrow> yaml \<Rightarrow> edge list \<Rightarrow> registry
       \<Rightarrow> (error + edge list) \<times> registry"
  and th_extend ::
    "env \<Rightarrow> string \<Rightarrow> string \<Rightarrow> string \<Rightarrow> yaml \<Rightarrow> string \<Rightarrow> edge list \<Rightarrow> registry
       \<Rightarrow> (error + edge list) \<times> registry" where
  "taskshandlers_children E basedir k v parent_type reg =
     (case iter_y v of
        Inl e \<Rightarrow> (Inl e, reg)
      | Inr ths \<Rightarrow> th_loop E basedir k parent_type ths [] reg)"
| "th_loop E basedir k parent_type [] results reg = (Inr results, reg)"
| "th_loop E basedir k parent_type (th # rest) results reg =
     (case th_entry E basedir k parent_type th results reg of
        (Inl e, reg1) \<Rightarrow> (Inl e, reg1)
      | (Inr results1, reg1) \<Rightarrow> th_loop E basedir k parent_type rest results1 reg1)"
| "th_entry E basedir k parent_type th results reg =
     (case first_key th_keys th of
        Inl e \<Rightarrow> (Inl e, reg)
      | Inr None \<Rightarrow> (Inr results, reg)
      | Inr (Some key) \<Rightarrow>
          (if key = ''include'' \<or> key = ''include_tasks'' \<or> key = ''import_playbook''
              \<or> key = ''import_tasks''
           then (case subscript_y th key of
                   Inl e \<Rightarrow> (Inl e, reg)
                 | Inr x \<Rightarrow>
                     (case append_children E x basedir k parent_type results of
                        Inl e \<Rightarrow> (Inl e, reg)
                      | Inr results1 \<Rightarrow> (Inr results1, reg)))
           else if key = ''import_role'' \<or> key = ''include_role''
           then (case subscript_y th key of
                   Inl e \<Rightarrow> (Inl e, reg)
                 | Inr x \<Rightarrow>
                     (case dot_get x ''name'' YNull of
                        Inl e \<Rightarrow> (Inl e, reg)
                      | Inr name \<Rightarrow>
                          (case dot_get x ''tasks_from'' (YStr ''main'') of
                             Inl e \<Rightarrow> (Inl e, reg)
                           | Inr main \<Rightarrow>
                               (case roles_children E basedir k (YList [name]) parent_type
                                       main reg of
                                  (Inl e, reg1) \<Rightarrow> (Inl e, reg1)
                                | (Inr found, reg1) \<Rightarrow> (Inr (results @ found), reg1)))))
           else (case th_extend E basedir k parent_type th ''block'' results reg of
                   (Inl e, reg1) \<Rightarrow> (Inl e, reg1)
                 | (Inr results1, reg1) \<Rightarrow>
                     (case th_extend E basedir k parent_type th ''rescue'' results1 reg1 of
                        (Inl e, reg2) \<Rightarrow> (Inl e, reg2)
                      | (Inr results2, reg2) \<Rightarrow>
                          th_extend E basedir k parent_type th ''always'' results2 reg2))))"
| "th_extend E basedir k parent_type th key results reg =
     (case in_y key th of
        Inl e \<Rightarrow> (Inl e, reg)
      | Inr present \<Rightarrow>
          (if present
           then (case subscript_y th key of
                   Inl e \<Rightarrow> (Inl e, reg)
                 | Inr x \<Rightarrow>
                     (case taskshandlers_children E basedir k x parent_type reg of
                        (Inl e, reg1) \<Rightarrow> (Inl e, reg1)
                      | (Inr found, reg1) \<Rightarrow> (Inr (results @ found), reg1)))
           else (Inr results, reg)))"
  by pat_completeness auto

termination taskshandlers_children
proof (relation "measure (\<lambda>c. case c of
    Inl (Inl (E, basedir, k, v, parent_type, reg)) \<Rightarrow> 3 * weight v + 2
  | Inl (Inr (E, basedir, k, parent_type, ths, results, reg)) \<Rightarrow> 3 * entries_weight ths
  | Inr (Inl (E, basedir, k, parent_type, th, results, reg)) \<Rightarrow> 3 * entry_weight th + 1
  | Inr (Inr (E, basedir, k, parent_type, th, key, results, reg)) \<Rightarrow> 3 * entry_weight th)")
  have weight_map_of: "map_of d key = Some x \<Longrightarrow> weight x < weight (YDict d)"
    for d key x
    by (induction d) (auto split: if_splits)
  have weight_subscript: "subscript_y th key = Inr x \<Longrightarrow> weight x < entry_weight th"
    for th key x
    by (cases th) (auto simp: entry_weight_def dest: weight_map_of split: option.splits)
  have entry_weight_le: "entry_weight th \<le> weight th" for th
    by (cases th) (simp_all add: entry_weight_def)
  have entries_weight_le: "entries_weight ths \<le> sum_list (map weight ths) + length ths"
    for ths
  proof (induction ths)
    case Nil
    show ?case by (simp add: entries_weight_def)
  next
    case (Cons th ths)
    from Cons entry_weight_le [of th] show ?case by (simp add: entries_weight_def)
  qed
  have entries_weight_strings: "entries_weight (map (\<lambda>x. YStr (f x)) xs) = length xs"
    for f :: "'a \<Rightarrow> string" and xs
    by (induction xs) (simp_all add: entries_weight_def entry_weight_def)
  have weight_iter: "entries_weight ths < weight v" if "iter_y v = Inr ths" for v ths
  proof (cases v)
    case (YList xs)
    with that have "ths = xs" by simp
    with YList entries_weight_le [of xs] show ?thesis by simp
  next
    case (YDict d)
    with that have "ths = map (\<lambda>kv. YStr (fst kv)) d" by simp
    with YDict entries_weight_strings [of fst d] show ?thesis by simp
  next
    case (YStr s)
    with that have "ths = map (\<lambda>c. YStr [c]) s" by simp
    with YStr entries_weight_strings [of "\<lambda>c. [c]" s] show ?thesis by simp
  qed (use that in simp_all)
  show "wf (measure (\<lambda>c. case c of
    Inl (Inl (E, basedir, k, v, parent_type, reg)) \<Rightarrow> 3 * weight v + 2
  | Inl (Inr (E, basedir, k, parent_type, ths, results, reg)) \<Rightarrow> 3 * entries_weight ths
  | Inr (Inl (E, basedir, k, parent_type, th, results, reg)) \<Rightarrow> 3 * entry_weight th + 1
  | Inr (Inr (E, basedir, k, parent_type, th, key, results, reg)) \<Rightarrow> 3 * entry_weight th))"
    by simp
  show "\<And>E basedir k v parent_type reg ths.
          iter_y v = Inr ths \<Longrightarrow>
          (Inl (Inr (E, basedir, k, parent_type, ths, [], reg)),
           Inl (Inl (E, basedir, k, v, parent_type, reg)))
          \<in> measure (\<lambda>c. case c of
    Inl (Inl (E, basedir, k, v, parent_type, reg)) \<Rightarrow> 3 * weight v + 2
  | Inl (Inr (E, basedir, k, parent_type, ths, results, reg)) \<Rightarrow> 3 * entries_weight ths
  | Inr (Inl (E, basedir, k, parent_type, th, results, reg)) \<Rightarrow> 3 * entry_weight th + 1
  | Inr (Inr (E, basedir, k, parent_type, th, key, results, reg)) \<Rightarrow> 3 * entry_weight th)"
    by (auto dest: weight_iter)
  show "\<And>E basedir k parent_type th key results reg present x.
          in_y key th = Inr present \<Longrightarrow> present \<Longrightarrow> subscript_y th key = Inr x \<Longrightarrow>
          (Inl (Inl (E, basedir, k, x, parent_type, reg)),
           Inr (Inr (E, basedir, k, parent_type, th, key, results, reg)))
          \<in> measure (\<lambda>c. case c of
    Inl (Inl (E, basedir, k, v, parent_type, reg)) \<Rightarrow> 3 * weight v + 2
  | Inl (Inr (E, basedir, k, parent_type, ths, results, reg)) \<Rightarrow> 3 * entries_weight ths
  | Inr (Inl (E, basedir, k, parent_type, th, results, reg)) \<Rightarrow> 3 * entry_weight th + 1
  | Inr (Inr (E, basedir, k, parent_type, th, key, results, reg)) \<Rightarrow> 3 * entry_weight th)"
    by (auto dest: weight_subscript)
qed (simp_all add: entries_weight_def)

subsection \<open>Children of a play\<close>

text \<open>
  \<^verbatim>\<open>except AnsibleError\<close> also catches the subclass \<^verbatim>\<open>AnsibleParserError\<close>.
\<close>

definition is_AnsibleError :: "error \<Rightarrow> bool" where
  "is_AnsibleError e =
     (case e of AnsibleError msg \<Rightarrow> True | AnsibleParserError msg \<Rightarrow> True | _ \<Rightarrow> False)"

text \<open>\<^verbatim>\<open>str(e)\<close> of an exception that carries its message.\<close>

definition error_str :: "error \<Rightarrow> string" where
  "error_str e =
     (case e of AnsibleError msg \<Rightarrow> msg | AnsibleParserError msg \<Rightarrow> msg | _ \<Rightarrow> [])"

text \<open>
  \<^verbatim>\<open>template(basedir, value, variables, fail_on_undefined=False)\<close> (lines 189 to
  198): \<^verbatim>\<open>AnsibleError\<close> and \<^verbatim>\<open>ValueError\<close> are suppressed and the function then
  returns \<^verbatim>\<open>None\<close>.
\<close>

definition template ::
  "env \<Rightarrow> string \<Rightarrow> yaml \<Rightarrow> (string \<times> string) list \<Rightarrow> bool \<Rightarrow> error + yaml" where
  "template E basedir given variables fail_on_undefined =
     (case templar_template E (abspath E basedir) given variables fail_on_undefined of
        Inr v \<Rightarrow> Inr v
      | Inl e \<Rightarrow> (if is_AnsibleError e \<or> e = ValueError then Inr YNull else Inl e))"

text \<open>The functions \<^verbatim>\<open>delegate_map\<close> (lines 202 to 212) sends a key to.\<close>

datatype delegate = Taskshandlers | Include | Roles

definition delegate_map :: "(string \<times> delegate) list" where
  "delegate_map =
     [(''tasks'', Taskshandlers), (''pre_tasks'', Taskshandlers),
      (''post_tasks'', Taskshandlers), (''block'', Taskshandlers),
      (''include'', Include), (''import_playbook'', Include),
      (''roles'', Roles), (''dependencies'', Roles), (''handlers'', Taskshandlers)]"

text \<open>\<^verbatim>\<open>play_children(basedir, item, parent_type)\<close> (lines 201 to 225).\<close>

definition play_children ::
  "env \<Rightarrow> string \<Rightarrow> string \<times> yaml \<Rightarrow> string \<Rightarrow> registry
     \<Rightarrow> (error + edge list) \<times> registry" where
  "play_children E basedir item parent_type reg =
     (case item of
        (k, v) \<Rightarrow>
          (let reg1 = load_library_if_exists E
                        (os_path_join (abspath E basedir) [''library'']) reg
           in case map_of delegate_map k of
                None \<Rightarrow> (Inr [], reg1)
              | Some f \<Rightarrow>
                  (if truthy_y v
                   then (case template E (abspath E basedir) v
                                [(''playbook_dir'', abspath E basedir)] False of
                           Inl e \<Rightarrow> (Inl e, reg1)
                         | Inr v1 \<Rightarrow>
                             (case f of
                                Taskshandlers \<Rightarrow>
                                  taskshandlers_children E basedir k v1 parent_type reg1
                              | Include \<Rightarrow>
                                  (include_children E basedir k v1 parent_type, reg1)
                              | Roles \<Rightarrow>
                                  roles_children E basedir k v1 parent_type
                                    (YStr ''main'') reg1))
                   else (Inr [], reg1))))"

text \<open>
  A call \<^verbatim>\<open>play_children(basedir, item, parent_type, *extra)\<close>: the function has three
  parameters and takes no others, so with a further positional argument the call raises
  \<^verbatim>\<open>TypeError\<close> before the body runs.
\<close>

definition call_play_children ::
  "env \<Rightarrow> string \<Rightarrow> string \<times> yaml \<Rightarrow> string \<Rightarrow> string list \<Rightarrow> registry
     \<Rightarrow> (error + edge list) \<times> registry" where
  "call_play_children E basedir item parent_type extra reg =
     (if extra = [] then play_children E basedir item parent_type reg
      else (Inl TypeError, reg))"

subsection \<open>find\_children\<close>

text \<open>
  \<^verbatim>\<open>_playbook_items(pb_data)\<close> (lines 152 to 159): the items of a mapping, nothing
  for a false value, else the items of every play; \<^verbatim>\<open>play.items()\<close> is an
  \<^verbatim>\<open>AttributeError\<close> for a play that is no mapping.
\<close>

fun plays_items :: "yaml list \<Rightarrow> error + (string \<times> yaml) list" where
  "plays_items [] = Inr []"
| "plays_items (play # rest) =
     (case play of
        YDict d \<Rightarrow>
          (case plays_items rest of
             Inl e \<Rightarrow> Inl e
           | Inr its \<Rightarrow> Inr (d @ its))
      | _ \<Rightarrow> Inl AttributeError)"

definition playbook_items :: "yaml \<Rightarrow> error + (string \<times> yaml) list" where
  "playbook_items pb_data =
     (case pb_data of
        YDict d \<Rightarrow> Inr d
      | _ \<Rightarrow>
          (if \<not> truthy_y pb_data then Inr []
           else (case iter_y pb_data of
                   Inl e \<Rightarrow> Inl e
                 | Inr plays \<Rightarrow> plays_items plays)))"

text \<open>\<^verbatim>\<open>" ".join(tokens)\<close>.\<close>

fun join_space :: "string list \<Rightarrow> string" where
  "join_space [] = []"
| "join_space [t] = t"
| "join_space (t # u # ts) = t @ '' '' @ join_space (u # ts)"

text \<open>
  The loop over the children of one item (lines 176 to 185): a child whose path holds
  \<^verbatim>\<open>$\<close> or \<^verbatim>\<open>{{\<close> is dropped; of the others the tokens before the first one with
  \<^verbatim>\<open>=\<close> are kept.
\<close>

fun children_loop :: "env \<Rightarrow> string \<Rightarrow> edge list \<Rightarrow> edge list \<Rightarrow> error + edge list" where
  "children_loop E basedir [] results = Inr results"
| "children_loop E basedir (child # rest) results =
     (if contains_str (e_path child) ''$'' \<or> contains_str (e_path child) ''{{''
      then children_loop E basedir rest results
      else (case split_args E (e_path child) of
              Inl e \<Rightarrow> Inl e
            | Inr tokens \<Rightarrow>
                children_loop E basedir rest
                  (results @
                   [\<lparr>e_path = dwim E basedir
                                (join_space (takeWhile (\<lambda>t. CHR ''='' \<notin> set t) tokens)),
                     e_type = e_type child\<rparr>])))"

text \<open>
  The loop over the items (lines 175 and 176). The call of line 176 hands
  \<^verbatim>\<open>play_children\<close> four arguments: \<open>basedir\<close>, the item, \<^verbatim>\<open>playbook[1]\<close> and
  \<open>playbook_dir\<close>.
\<close>

fun items_loop ::
  "env \<Rightarrow> string \<Rightarrow> string \<Rightarrow> string \<Rightarrow> (string \<times> yaml) list \<Rightarrow> edge list \<Rightarrow> registry
     \<Rightarrow> (error + edge list) \<times> registry" where
  "items_loop E basedir kind playbook_dir [] results reg = (Inr results, reg)"
| "items_loop E basedir kind playbook_dir (item # rest) results reg =
     (case call_play_children E basedir item kind [playbook_dir] reg of
        (Inl e, reg1) \<Rightarrow> (Inl e, reg1)
      | (Inr children, reg1) \<Rightarrow>
          (case children_loop E basedir children results of
             Inl e \<Rightarrow> (Inl e, reg1)
           | Inr results1 \<Rightarrow> items_loop E basedir kind playbook_dir rest results1 reg1))"

text \<open>
  \<^verbatim>\<open>find_children(playbook, playbook_dir)\<close> (lines 162 to 186) for the pair
  \<open>playbook\<close> of a path and a kind.
\<close>

definition find_children ::
  "env \<Rightarrow> string \<times> string \<Rightarrow> string \<Rightarrow> registry \<Rightarrow> (error + edge list) \<times> registry" where
  "find_children E playbook playbook_dir reg =
     (if \<not> path_exists E (fst playbook) then (Inr [], reg)
      else (case (if snd playbook = ''role''
                  then Inr (YDict [(''roles'', YList [YDict [(''role'', YStr (fst playbook))]])])
                  else (case load_from_file E (fst playbook) of
                          Inr ds \<Rightarrow> Inr ds
                        | Inl e \<Rightarrow>
                            (if is_AnsibleError e then Inl (SystemExit (error_str e))
                             else Inl e))) of
              Inl e \<Rightarrow> (Inl e, reg)
            | Inr playbook_ds \<Rightarrow>
                (case playbook_items playbook_ds of
                   Inl e \<Rightarrow> (Inl e, reg)
                 | Inr its \<Rightarrow>
                     items_loop E (dirname (fst playbook)) (snd playbook) playbook_dir
                       its [] reg)))"

section \<open>Example inputs\<close>

text \<open>
  A play with one block (a task in \<^verbatim>\<open>block\<close>, one in \<^verbatim>\<open>rescue\<close>) and one
  \<^verbatim>\<open>include_tasks\<close> entry, as the loader leaves it: mapping 3 is the play, 0 the block,
  1 and 2 its tasks, 4 the include.
\<close>

definition play_store :: store where
  "play_store =
     \<lparr> objs = (\<lambda>_. [])
         (0 := [(''name'', VStr ''b''), (''block'', VList [VRef 1]),
                (''rescue'', VList [VRef 2]), (''__line__'', VInt 3)],
          1 := [(''debug'', VStr ''msg=a'')],
          2 := [(''debug'', VStr ''msg=b'')],
          3 := [(''hosts'', VStr ''all''), (''tasks'', VList [VRef 0, VRef 4])],
          4 := [(''include_tasks'', VStr ''x.yml'')]),
       nxt = 5, BUILTIN_TASKS = {} \<rparr>"

text \<open>A block whose \<^verbatim>\<open>block\<close> key holds a string.\<close>

definition bad_block_store :: store where
  "bad_block_store =
     \<lparr> objs = (\<lambda>_. [])(0 := [(''block'', VStr ''oops''), (''__line__'', VInt 1)]),
       nxt = 1, BUILTIN_TASKS = {} \<rparr>"

text \<open>
  What \<^verbatim>\<open>ModuleArgsParser\<close> answers for a task that names the module \<^verbatim>\<open>debug\<close>
  with a mapping of arguments (\<^verbatim>\<open>debug: {msg: hello}\<close>): the module, the arguments as
  written, and the task's \<^verbatim>\<open>delegate_to\<close>. Every other task is refused here.
\<close>

definition debug_parser :: parser where
  "debug_parser s task =
     (case map_of task ''debug'' of
        Some (VRef a) \<Rightarrow> Inr (''debug'', objs s a, dict_get task ''delegate_to'')
      | _ \<Rightarrow> Inl (AnsibleParserError ''no module/action detected in task.''))"

text \<open>The task \<^verbatim>\<open>debug: {msg: hello}\<close> with a name, an \<^verbatim>\<open>args\<close> key and its location.\<close>

definition debug_store :: store where
  "debug_store =
     \<lparr> objs = (\<lambda>_. [])
         (0 := [(''name'', VStr ''say''), (''debug'', VRef 1), (''args'', VNull),
                (''__line__'', VInt 7), (''__file__'', VStr ''main.yml''),
                (''__ansible_action_type__'', VStr ''handler'')],
          1 := [(''msg'', VStr ''hello'')]),
       nxt = 2, BUILTIN_TASKS = {} \<rparr>"

text \<open>The task \<^verbatim>\<open>debug: {__ansible_module__: x}\<close>.\<close>

definition clash_store :: store where
  "clash_store =
     \<lparr> objs = (\<lambda>_. [])
         (0 := [(''debug'', VRef 1), (''__line__'', VInt 2)],
          1 := [(''__ansible_module__'', VStr ''x'')]),
       nxt = 2, BUILTIN_TASKS = {} \<rparr>"

text \<open>A task without any module: the parser refuses it.\<close>

definition no_module_store :: store where
  "no_module_store =
     \<lparr> objs = (\<lambda>_. [])
         (0 := [(''name'', VStr ''nothing''), (''__line__'', VInt 4),
                (''__file__'', VStr ''main.yml''), (''__ansible_action_type__'', VStr ''task'')]),
       nxt = 1, BUILTIN_TASKS = {} \<rparr>"

text \<open>
  A playbook directory \<^verbatim>\<open>/pb\<close> with \<^verbatim>\<open>site.yml\<close> and the role \<^verbatim>\<open>myrole\<close>, which
  has \<^verbatim>\<open>tasks/main.yml\<close> and \<^verbatim>\<open>handlers/main.yml\<close> and no \<^verbatim>\<open>meta\<close>; beside it
  \<^verbatim>\<open>/tasks/sub.yml\<close>, which is also what \<^verbatim>\<open>/pb/../tasks/sub.yml\<close> names. The
  play of \<^verbatim>\<open>site.yml\<close> has the one role, tagged \<^verbatim>\<open>skip_ansible_later\<close>. Paths are
  resolved by joining, templates are left as they are, arguments are split at white
  space.
\<close>

definition site_yml :: yaml where
  "site_yml =
     YList [YDict [(''hosts'', YStr ''all''),
                   (''roles'', YList [YDict [(''role'', YStr ''myrole''),
                                             (''tags'', YList [YStr ''skip_ansible_later''])]])]]"

definition site_env :: env where
  "site_env =
     \<lparr> path_exists = (\<lambda>p. p = ''/pb/site.yml'' \<or> p = ''/pb/roles/myrole''
                          \<or> p = ''/pb/roles/myrole/tasks/main.yml''
                          \<or> p = ''/pb/roles/myrole/handlers/main.yml''
                          \<or> p = ''/tasks/sub.yml'' \<or> p = ''/pb/../tasks/sub.yml''),
       path_isdir = (\<lambda>p. p = ''/pb/roles/myrole''),
       abspath = (\<lambda>p. p),
       expanduser = (\<lambda>p. p),
       dwim = join2,
       dwim_other = (\<lambda>basedir given. Inl TypeError),
       DEFAULT_ROLES_PATH = RolesNone,
       load_from_file = (\<lambda>p. if p = ''/pb/site.yml'' then Inr site_yml
                              else Inl (AnsibleError ''unable to read the file'')),
       templar_template = (\<lambda>basedir given variables fail_on_undefined. Inr given),
       yaml_str = (\<lambda>v. []),
       split_args = (\<lambda>s. Inr (split_ws s)) \<rparr>"

section \<open>Properties of standard.py\<close>

lemma dict_get_update_same: "dict_get (AList.update k v d) k = v"
  by (simp add: dict_get_def update_conv')

text \<open>
  Claim C10. For every dictionary, \<^verbatim>\<open>Standard.__init__\<close> sets the object's id to
  the original id wrapped in square brackets and followed by one space when the key
  \<^verbatim>\<open>id\<close> is present, and to the empty string when it is absent; in both cases the
  caller's dictionary afterwards holds that same string under \<^verbatim>\<open>id\<close>, and nothing
  else of it changes. The original id is written as \<^verbatim>\<open>format\<close> writes it: a string
  as it is, \<^verbatim>\<open>None\<close>, \<^verbatim>\<open>True\<close> and \<^verbatim>\<open>False\<close> by their names, any other
  object as the interpreter prints it (\<open>repr\<close>).
\<close>

theorem Standard_init_id:
  "(map_of d ''id'' = None \<longrightarrow>
      s_id (snd (Standard_init repr d)) = VStr '''' \<and>
      fst (Standard_init repr d) = AList.update ''id'' (VStr '''') d) \<and>
   (\<forall>v. map_of d ''id'' = Some v \<longrightarrow>
      s_id (snd (Standard_init repr d)) = VStr (''['' @ py_format repr v @ ''] '') \<and>
      fst (Standard_init repr d) =
        AList.update ''id'' (VStr (''['' @ py_format repr v @ ''] '')) d) \<and>
   (\<forall>s. map_of d ''id'' = Some (VStr s) \<longrightarrow>
      s_id (snd (Standard_init repr d)) = VStr (''['' @ s @ ''] '') \<and>
      fst (Standard_init repr d) = AList.update ''id'' (VStr (''['' @ s @ ''] '')) d) \<and>
   (map_of d ''id'' = Some VNull \<longrightarrow>
      s_id (snd (Standard_init repr d)) = VStr ''[None] '' \<and>
      fst (Standard_init repr d) = AList.update ''id'' (VStr ''[None] '') d) \<and>
   (map_of d ''id'' = Some (VBool True) \<longrightarrow>
      s_id (snd (Standard_init repr d)) = VStr ''[True] '' \<and>
      fst (Standard_init repr d) = AList.update ''id'' (VStr ''[True] '') d) \<and>
   (map_of d ''id'' = Some (VBool False) \<longrightarrow>
      s_id (snd (Standard_init repr d)) = VStr ''[False] '' \<and>
      fst (Standard_init repr d) = AList.update ''id'' (VStr ''[False] '') d) \<and>
   (\<forall>i. map_of d ''id'' = Some (VInt i) \<longrightarrow>
      s_id (snd (Standard_init repr d)) = VStr (''['' @ repr (VInt i) @ ''] '') \<and>
      fst (Standard_init repr d) =
        AList.update ''id'' (VStr (''['' @ repr (VInt i) @ ''] '')) d) \<and>
   (\<forall>xs. map_of d ''id'' = Some (VList xs) \<longrightarrow>
      s_id (snd (Standard_init repr d)) = VStr (''['' @ repr (VList xs) @ ''] '') \<and>
      fst (Standard_init repr d) =
        AList.update ''id'' (VStr (''['' @ repr (VList xs) @ ''] '')) d) \<and>
   (\<forall>a. map_of d ''id'' = Some (VRef a) \<longrightarrow>
      s_id (snd (Standard_init repr d)) = VStr (''['' @ repr (VRef a) @ ''] '') \<and>
      fst (Standard_init repr d) =
        AList.update ''id'' (VStr (''['' @ repr (VRef a) @ ''] '')) d) \<and>
   map_of (fst (Standard_init repr d)) ''id'' = Some (s_id (snd (Standard_init repr d)))"
  by (auto simp: Standard_init_def has_key_def Let_def dict_get_update_same update_conv'
      dict_get_def)

theorem Standard_init_id_witness:
  "s_id (snd (Standard_init (\<lambda>v. ''7'') [(''id'', VStr ''LINT0001''), (''name'', VStr ''n'')]))
     = VStr ''[LINT0001] '' \<and>
   fst (Standard_init (\<lambda>v. ''7'') [(''id'', VStr ''LINT0001''), (''name'', VStr ''n'')])
     = [(''id'', VStr ''[LINT0001] ''), (''name'', VStr ''n'')] \<and>
   s_id (snd (Standard_init (\<lambda>v. ''7'') [(''name'', VStr ''n'')])) = VStr '''' \<and>
   fst (Standard_init (\<lambda>v. ''7'') [(''name'', VStr ''n'')])
     = [(''name'', VStr ''n''), (''id'', VStr '''')] \<and>
   s_id (snd (Standard_init (\<lambda>v. ''7'') [(''name'', VStr ''n''), (''id'', VNull)]))
     = VStr ''[None] '' \<and>
   fst (Standard_init (\<lambda>v. ''7'') [(''name'', VStr ''n''), (''id'', VNull)])
     = [(''name'', VStr ''n''), (''id'', VStr ''[None] '')] \<and>
   s_id (snd (Standard_init (\<lambda>v. ''7'') [(''id'', VBool False)])) = VStr ''[False] '' \<and>
   s_id (snd (Standard_init (\<lambda>v. ''7'') [(''id'', VInt 7)])) = VStr ''[7] '' \<and>
   fst (Standard_init (\<lambda>v. ''7'') [(''id'', VInt 7)]) = [(''id'', VStr ''[7] '')]"
  using Standard_init_id [of "[(''id'', VStr ''LINT0001''), (''name'', VStr ''n'')]" "\<lambda>v. ''7''"]
    Standard_init_id [of "[(''name'', VStr ''n'')]" "\<lambda>v. ''7''"]
    Standard_init_id [of "[(''name'', VStr ''n''), (''id'', VNull)]" "\<lambda>v. ''7''"]
    Standard_init_id [of "[(''id'', VBool False)]" "\<lambda>v. ''7''"]
    Standard_init_id [of "[(''id'', VInt 7)]" "\<lambda>v. ''7''"]
  by simp

section \<open>Properties of the task extractor\<close>

lemma filter_tasks_kept:
  "filter_tasks keep xs = Inr ys \<Longrightarrow> t \<in> set ys \<Longrightarrow> keep t = Inr True \<and> t \<in> set xs"
proof (induction xs arbitrary: ys)
  case Nil
  then show ?case by simp
next
  case (Cons x xs)
  then show ?case
    by (auto split: sum.splits if_splits)
qed

lemma all_not_in_True:
  "all_not_in s task ks = Inr True \<Longrightarrow> k \<in> set ks \<Longrightarrow> py_in s k task = Inr False"
  by (induction ks) (auto split: sum.splits if_splits)

lemma isdisjoint_keys_True:
  "isdisjoint_keys s allowed task = Inr True \<Longrightarrow> k \<in> set allowed \<Longrightarrow>
     \<exists>a. task = VRef a \<and> \<not> has_key (objs s a) k"
  by (auto simp: isdisjoint_keys_def list_all_iff split: val.splits)

text \<open>
  A list that \<open>action_tasks\<close> returns went through both comprehensions, and both read
  the store the call ends with.
\<close>

lemma action_tasks_result:
  assumes "action_tasks yaml filetype s = (Inr result, s')"
  obtains tasks tasks' where
    "filter_tasks (\<lambda>task. all_not_in s' task [''block'', ''rescue'', ''always'']) tasks
       = Inr tasks'"
    "filter_tasks
       (isdisjoint_keys s' [''include'', ''include_tasks'', ''import_playbook'', ''import_tasks''])
       tasks' = Inr result"
  using assms unfolding action_tasks_def
  by (auto split: sum.splits prod.splits if_splits)

text \<open>
  Claim C4. For every parsed content, file type and store: when \<open>action_tasks\<close> returns a
  list, every entry of it is a mapping that, in the store the call leaves, has none of
  the keys \<^verbatim>\<open>block\<close>, \<^verbatim>\<open>rescue\<close>, \<^verbatim>\<open>always\<close>, \<^verbatim>\<open>include\<close>,
  \<^verbatim>\<open>include_tasks\<close>, \<^verbatim>\<open>import_playbook\<close>, \<^verbatim>\<open>import_tasks\<close>.
\<close>

theorem action_tasks_no_structural_keys:
  assumes "action_tasks yaml filetype s = (Inr result, s')"
    and "task \<in> set result"
    and "k \<in> set [''block'', ''rescue'', ''always'', ''include'', ''include_tasks'',
                  ''import_playbook'', ''import_tasks'']"
  shows "\<exists>a. task = VRef a \<and> \<not> has_key (objs s' a) k"
proof -
  from assms(1) obtain tasks tasks' where
    f1: "filter_tasks (\<lambda>task. all_not_in s' task [''block'', ''rescue'', ''always'']) tasks
           = Inr tasks'"
    and f2: "filter_tasks
               (isdisjoint_keys s'
                  [''include'', ''include_tasks'', ''import_playbook'', ''import_tasks''])
               tasks' = Inr result"
    by (rule action_tasks_result)
  from filter_tasks_kept [OF f2 assms(2)]
  have d: "isdisjoint_keys s'
             [''include'', ''include_tasks'', ''import_playbook'', ''import_tasks''] task
           = Inr True"
    and m: "task \<in> set tasks'" by simp_all
  from d obtain a where a: "task = VRef a"
    by (auto simp: isdisjoint_keys_def split: val.splits)
  from filter_tasks_kept [OF f1 m]
  have b: "all_not_in s' task [''block'', ''rescue'', ''always''] = Inr True" by simp
  show ?thesis
  proof (cases "k \<in> set [''block'', ''rescue'', ''always'']")
    case True
    from all_not_in_True [OF b True] a show ?thesis by simp
  next
    case False
    with assms(3)
    have "k \<in> set [''include'', ''include_tasks'', ''import_playbook'', ''import_tasks'']"
      by auto
    from isdisjoint_keys_True [OF d this] show ?thesis .
  qed
qed

lemma action_tasks_play_store:
  "fst (action_tasks (VList [VRef 3]) ''playbook'' play_store) = Inr [VRef 1, VRef 2]"
  by (simp add: play_store_def action_tasks_def alloc_def put_def meta_data_of_def
      BLOCK_NAME_TO_ACTION_TYPE_MAP_def has_key_def isdisjoint_keys_def AList.delete_eq)

theorem action_tasks_no_structural_keys_witness:
  "fst (action_tasks (VList [VRef 3]) ''playbook'' play_store) = Inr [VRef 1, VRef 2] \<and>
   \<not> has_key (objs (snd (action_tasks (VList [VRef 3]) ''playbook'' play_store)) 1) ''block'' \<and>
   \<not> has_key (objs (snd (action_tasks (VList [VRef 3]) ''playbook'' play_store)) 2)
        ''include_tasks''"
proof -
  have e: "action_tasks (VList [VRef 3]) ''playbook'' play_store =
             (Inr [VRef 1, VRef 2], snd (action_tasks (VList [VRef 3]) ''playbook'' play_store))"
    using action_tasks_play_store by (simp add: prod_eq_iff)
  from action_tasks_no_structural_keys [OF e, of "VRef 1" "''block''"]
    action_tasks_no_structural_keys [OF e, of "VRef 2" "''include_tasks''"]
    action_tasks_play_store
  show ?thesis by simp
qed

text \<open>
  What the extractor writes: it sets the two keys \<^verbatim>\<open>__ansible_action_type__\<close> and
  \<^verbatim>\<open>__ansible_action_meta__\<close> of mappings and creates new mappings. Every other key of
  a mapping that was in the store before keeps its value.
\<close>

lemma set_item_frame:
  assumes "set_item v k x s = Inr s'"
  shows "nxt s' = nxt s" and "c \<noteq> k \<Longrightarrow> map_of (objs s' a) c = map_of (objs s a) c"
  using assms by (cases v; auto simp: put_def update_conv')+

lemma add_action_type_frame:
  assumes "add_action_type xs t m s = (r, s')"
  shows "nxt s' = nxt s \<and>
         (c \<noteq> ''__ansible_action_type__'' \<and> c \<noteq> ''__ansible_action_meta__'' \<longrightarrow>
            map_of (objs s' a) c = map_of (objs s a) c)"
  using assms
proof (induction xs arbitrary: s r s')
  case Nil
  then show ?case by simp
next
  case (Cons x xs)
  show ?case
  proof (cases "map_of BLOCK_NAME_TO_ACTION_TYPE_MAP t")
    case None
    with Cons.prems show ?thesis by simp
  next
    case (Some ty)
    show ?thesis
    proof (cases "set_item x ''__ansible_action_type__'' (VStr ty) s")
      case (Inl e)
      with Some Cons.prems show ?thesis by simp
    next
      case (Inr s1)
      note f1 = set_item_frame [OF Inr]
      show ?thesis
      proof (cases "if truthy s1 m then set_item x ''__ansible_action_meta__'' m s1 else Inr s1")
        case (Inl e)
        with Some Inr Cons.prems have "s' = s1" by simp
        with f1 show ?thesis by simp
      next
        case s2: (Inr s2)
        have f2: "nxt s2 = nxt s1"
          "c \<noteq> ''__ansible_action_meta__'' \<Longrightarrow> map_of (objs s2 a) c = map_of (objs s1 a) c"
          using s2 set_item_frame [of x "''__ansible_action_meta__''" m s1 s2]
          by (auto split: if_splits)
        obtain r3 s3 where rec: "add_action_type xs t m s2 = (r3, s3)"
          by (cases "add_action_type xs t m s2")
        from Cons.IH [OF rec] have f3: "nxt s3 = nxt s2"
          "c \<noteq> ''__ansible_action_type__'' \<and> c \<noteq> ''__ansible_action_meta__'' \<longrightarrow>
            map_of (objs s3 a) c = map_of (objs s2 a) c" by simp_all
        from Some Inr s2 rec Cons.prems have "s' = s3"
          by (cases r3) (simp_all del: set_item.simps)
        with f1 f2 f3 show ?thesis by simp
      qed
    qed
  qed
qed

lemma alloc_frame:
  assumes "alloc d s = (m, s1)"
  shows "nxt s1 = Suc (nxt s)" and "a < nxt s \<Longrightarrow> objs s1 a = objs s a"
  using assms by (auto simp: alloc_def)

text \<open>The inner loop runs its first candidate, then the others from the store that leaves.\<close>

lemma extract_candidates_Cons:
  "extract_candidates block (c0 # cs) s =
     (case extract_candidates block [c0] s of
        (Inl e, s1) \<Rightarrow> (Inl e, s1)
      | (Inr found, s1) \<Rightarrow>
          (case extract_candidates block cs s1 of
             (Inl e, s2) \<Rightarrow> (Inl e, s2)
           | (Inr results, s2) \<Rightarrow> (Inr (found @ results), s2)))"
  by (auto split: val.splits option.splits prod.splits sum.splits)

lemma extract_candidates_single_frame:
  assumes "extract_candidates block [c0] s = (r, s')"
  shows "nxt s \<le> nxt s' \<and>
         (a < nxt s \<and> c \<noteq> ''__ansible_action_type__'' \<and> c \<noteq> ''__ansible_action_meta__'' \<longrightarrow>
            map_of (objs s' a) c = map_of (objs s a) c)"
proof (cases "\<exists>b xs. block = VRef b \<and> map_of (objs s b) c0 = Some (VList xs)")
  case False
  then have "s' = s" using assms
    by (auto split: val.splits option.splits)
  then show ?thesis by simp
next
  case True
  then obtain b xs where b: "block = VRef b" "map_of (objs s b) c0 = Some (VList xs)" by blast
  obtain m s1 where al: "alloc (meta_data_of (objs s b) c0) s = (m, s1)"
    by (cases "alloc (meta_data_of (objs s b) c0) s")
  note fa = alloc_frame [OF al]
  obtain r2 s2 where ad: "add_action_type xs c0 (VRef m) s1 = (r2, s2)"
    by (cases "add_action_type xs c0 (VRef m) s1")
  from add_action_type_frame [OF ad] have f2: "nxt s2 = nxt s1"
    "c \<noteq> ''__ansible_action_type__'' \<and> c \<noteq> ''__ansible_action_meta__'' \<longrightarrow>
          map_of (objs s2 a) c = map_of (objs s1 a) c" by simp_all
  from b al ad assms have "s' = s2"
    by (cases r2) simp_all
  with fa f2 show ?thesis by auto
qed

lemma extract_candidates_frame:
  assumes "extract_candidates block cs s = (r, s')"
  shows "nxt s \<le> nxt s' \<and>
         (a < nxt s \<and> c \<noteq> ''__ansible_action_type__'' \<and> c \<noteq> ''__ansible_action_meta__'' \<longrightarrow>
            map_of (objs s' a) c = map_of (objs s a) c)"
  using assms
proof (induction cs arbitrary: s r s')
  case Nil
  then show ?case by simp
next
  case (Cons c0 cs)
  obtain r1 s1 where st: "extract_candidates block [c0] s = (r1, s1)"
    by (cases "extract_candidates block [c0] s")
  note f1 = extract_candidates_single_frame [OF st, of a c]
  show ?case
  proof (cases r1)
    case (Inl e)
    with st Cons.prems have "s' = s1"
      by (simp add: extract_candidates_Cons [of block c0 cs] del: extract_candidates.simps)
    with f1 show ?thesis by simp
  next
    case (Inr found)
    obtain r2 s2 where rec: "extract_candidates block cs s1 = (r2, s2)"
      by (cases "extract_candidates block cs s1")
    note f2 = Cons.IH [OF rec]
    from st Inr rec Cons.prems have "s' = s2"
      by (cases r2)
        (simp_all add: extract_candidates_Cons [of block c0 cs] del: extract_candidates.simps)
    with f1 f2 show ?thesis by auto
  qed
qed

text \<open>
  A block of the store with a bad value under one of the candidates stops the inner
  loop: at that candidate, or at an earlier one whose items could not be tagged.
\<close>

lemma extract_candidates_bad_value:
  assumes "candidate \<in> set cs"
    and "candidate \<noteq> ''__ansible_action_type__''" and "candidate \<noteq> ''__ansible_action_meta__''"
    and "a < nxt s"
    and "map_of (objs s a) candidate = Some v"
    and "v \<noteq> VNull" and "\<forall>xs. v \<noteq> VList xs"
  shows "\<exists>e s'. extract_candidates (VRef a) cs s = (Inl e, s')"
  using assms
proof (induction cs arbitrary: s)
  case Nil
  then show ?case by simp
next
  case (Cons c0 cs)
  show ?case
  proof (cases "c0 = candidate")
    case True
    with Cons.prems show ?thesis by (cases v) simp_all
  next
    case False
    with Cons.prems have mem: "candidate \<in> set cs" by simp
    obtain r1 s1 where st: "extract_candidates (VRef a) [c0] s = (r1, s1)"
      by (cases "extract_candidates (VRef a) [c0] s")
    from extract_candidates_single_frame [OF st, of a candidate] Cons.prems
    have k: "a < nxt s1" "map_of (objs s1 a) candidate = Some v" by auto
    from Cons.IH [OF mem Cons.prems(2,3) k Cons.prems(6,7)]
    obtain e s' where rest: "extract_candidates (VRef a) cs s1 = (Inl e, s')" by blast
    show ?thesis
      using st rest
      by (cases r1)
        (simp_all add: extract_candidates_Cons [of "VRef a" c0 cs] del: extract_candidates.simps)
  qed
qed

text \<open>
  Claim C8. Let a block of the list be a mapping of the store whose \<^verbatim>\<open>block\<close>,
  \<^verbatim>\<open>rescue\<close> or \<^verbatim>\<open>always\<close> key, one of the candidates, holds a value that is neither
  a list nor \<^verbatim>\<open>None\<close>. Then \<open>extract_from_list\<close> raises and returns no result. Where
  the block and the candidate stand alone, the error is the \<^verbatim>\<open>RuntimeError\<close> of line
  480 for that key and value.
\<close>

theorem extract_from_list_bad_value:
  assumes "VRef a \<in> set blocks" and "a < nxt s"
    and "candidate \<in> set candidates"
    and "candidate \<in> set [''block'', ''rescue'', ''always'']"
    and "map_of (objs s a) candidate = Some v"
    and "v \<noteq> VNull" and "\<forall>xs. v \<noteq> VList xs"
  shows "(\<exists>e s'. extract_from_list blocks candidates s = (Inl e, s')) \<and>
         extract_from_list [VRef a] [candidate] s = (Inl (RuntimeError candidate v), s)"
proof
  have c: "candidate \<noteq> ''__ansible_action_type__''" "candidate \<noteq> ''__ansible_action_meta__''"
    using assms(4) by auto
  show "\<exists>e s'. extract_from_list blocks candidates s = (Inl e, s')"
    using assms(1,2,5)
  proof (induction blocks arbitrary: s)
    case Nil
    then show ?case by simp
  next
    case (Cons b blocks)
    obtain r1 s1 where st: "extract_candidates b candidates s = (r1, s1)"
      by (cases "extract_candidates b candidates s")
    show ?case
    proof (cases r1)
      case (Inl e)
      with st show ?thesis by simp
    next
      case (Inr found)
      have "b \<noteq> VRef a"
      proof
        assume "b = VRef a"
        with extract_candidates_bad_value [OF assms(3) c Cons.prems(2,3) assms(6,7)] st Inr
        show False by simp
      qed
      with Cons.prems have mem: "VRef a \<in> set blocks" by simp
      from extract_candidates_frame [OF st, of a candidate] c Cons.prems
      have k: "a < nxt s1" "map_of (objs s1 a) candidate = Some v" by auto
      from Cons.IH [OF mem k] obtain e s' where
        "extract_from_list blocks candidates s1 = (Inl e, s')" by blast
      with st Inr show ?thesis by simp
    qed
  qed
  show "extract_from_list [VRef a] [candidate] s = (Inl (RuntimeError candidate v), s)"
    using assms(5,6,7) by (cases v) simp_all
qed

theorem extract_from_list_bad_value_witness:
  "extract_from_list [VRef 0] [''block'', ''rescue'', ''always''] bad_block_store
     = (Inl (RuntimeError ''block'' (VStr ''oops'')), bad_block_store)"
proof -
  have v: "map_of (objs bad_block_store 0) ''block'' = Some (VStr ''oops'')"
    by (simp add: bad_block_store_def)
  have n: "0 < nxt bad_block_store" by (simp add: bad_block_store_def)
  from extract_from_list_bad_value
    [of 0 "[VRef 0]" bad_block_store "''block''" "[''block'', ''rescue'', ''always'']"
       "VStr ''oops''", OF _ n _ _ v]
  obtain e s' where
    "extract_from_list [VRef 0] [''block'', ''rescue'', ''always''] bad_block_store = (Inl e, s')"
    by auto
  then show ?thesis using v by auto
qed

section \<open>Properties of the task normalizer\<close>

lemma delete_absent: "map_of d k = None \<Longrightarrow> AList.delete k d = d"
  by (induction d) (auto split: if_splits)

lemma dict_pop_eq: "dict_pop d k dflt = (v, d') \<Longrightarrow> d' = AList.delete k d"
  by (auto simp: dict_pop_def delete_absent split: option.splits)

lemma normalize_prepare_store:
  assumes "normalize_prepare task cm s = (aat, meta, s1)"
  shows "nxt s1 = Suc (nxt s)"
    and "objs s1 task = AList.delete ''__ansible_action_meta__''
             (AList.delete ''__file__''
               (AList.delete ''__line__''
                 (AList.delete ''__ansible_action_type__'' (objs s task))))"
    and "map fst meta = [''__line__'', ''__file__'', ''__ansible_action_meta__'']"
    and "a \<noteq> task \<Longrightarrow> a < nxt s \<Longrightarrow> objs s1 a = objs s a"
  using assms
  by (auto simp: normalize_prepare_def Let_def alloc_def put_def split: prod.splits
      dest!: dict_pop_eq)

lemma normalize_task_store:
  assumes "normalize_prepare task cm s = (aat, meta, s1)" and "task < nxt s"
  shows "objs (snd (normalize_task P task filename cm s)) task = objs s1 task"
proof -
  from normalize_prepare_store(1) [OF assms(1)] assms(2) have "task \<noteq> nxt s1" by simp
  then show ?thesis using assms(1)
    by (auto simp: normalize_task_def Let_def alloc_def put_def
        split: prod.splits sum.splits error.splits option.splits val.splits)
qed

lemma has_key_delete: "has_key (AList.delete k d) k' = (k' \<noteq> k \<and> has_key d k')"
  by (auto simp: has_key_def delete_conv')

text \<open>
  Claim C9. \<^verbatim>\<open>normalize_task\<close> writes into the caller's task: after any call on a
  task of the store, whether it returns or raises (the parser's error included, since
  the parser runs after line 387), the task's mapping is the one before the call without
  the keys \<^verbatim>\<open>__ansible_action_type__\<close>, \<^verbatim>\<open>__line__\<close>, \<^verbatim>\<open>__file__\<close> and
  \<^verbatim>\<open>__ansible_action_meta__\<close>. Nothing puts them back when the call fails.
\<close>

theorem normalize_task_strips_task:
  assumes "task < nxt s"
  shows "objs (snd (normalize_task P task filename cm s)) task =
           AList.delete ''__ansible_action_meta__''
             (AList.delete ''__file__''
               (AList.delete ''__line__''
                 (AList.delete ''__ansible_action_type__'' (objs s task)))) \<and>
         list_all (\<lambda>k. \<not> has_key (objs (snd (normalize_task P task filename cm s)) task) k)
           [''__ansible_action_type__'', ''__line__'', ''__file__'', ''__ansible_action_meta__'']"
proof -
  obtain aat meta s1 where p: "normalize_prepare task cm s = (aat, meta, s1)"
    by (cases "normalize_prepare task cm s")
  from normalize_task_store [OF p assms] normalize_prepare_store(2) [OF p]
  show ?thesis by (simp add: has_key_delete)
qed

theorem normalize_task_strips_task_witness:
  "fst (normalize_task debug_parser 0 ''main.yml'' None no_module_store)
     = Inl (LaterAnsibleError ''no module/action detected in task.'') \<and>
   objs (snd (normalize_task debug_parser 0 ''main.yml'' None no_module_store)) 0
     = [(''name'', VStr ''nothing'')]"
proof -
  have n: "0 < nxt no_module_store" by (simp add: no_module_store_def)
  have e: "fst (normalize_task debug_parser 0 ''main.yml'' None no_module_store)
     = Inl (LaterAnsibleError ''no module/action detected in task.'')"
    by (simp add: normalize_task_def normalize_prepare_def no_module_store_def debug_parser_def
        dict_pop_def alloc_def put_def Let_def AList.delete_eq later_ansible_error_def)
  from normalize_task_strips_task [OF n, of debug_parser "''main.yml''" None] e
  show ?thesis by (simp add: no_module_store_def AList.delete_eq)
qed


lemma has_key_update: "has_key (AList.update k v d) k' = (k' = k \<or> has_key d k')"
  by (auto simp: has_key_def update_conv')

lemma passthrough_Nil: "passthrough [] action n = n"
  by (simp add: passthrough_def)

lemma passthrough_Cons:
  "passthrough (kv # task_items) action n =
     passthrough task_items action
       (if fst kv \<in> set [''action'', ''local_action'', ''args'', ''delegate_to'']
           \<or> fst kv = action
        then n else AList.update (fst kv) (snd kv) n)"
  by (simp add: passthrough_def)

lemma map_of_passthrough_reserved:
  assumes "k \<in> set [''action'', ''local_action'', ''args'', ''delegate_to'']"
  shows "map_of (passthrough task_items action n) k = map_of n k"
proof (induction task_items arbitrary: n)
  case Nil
  show ?case by (simp only: passthrough_Nil)
next
  case (Cons kv task_items)
  show ?case
  proof (cases "fst kv \<in> set [''action'', ''local_action'', ''args'', ''delegate_to'']
                 \<or> fst kv = action")
    case True
    then show ?thesis
      by (simp only: passthrough_Cons [of kv task_items action n] if_True Cons.IH)
  next
    case False
    with assms have ne: "fst kv \<noteq> k" by blast
    have "map_of (passthrough (kv # task_items) action n) k =
          map_of (AList.update (fst kv) (snd kv) n) k"
      using False by (simp only: passthrough_Cons [of kv task_items action n] if_False Cons.IH)
    also have "\<dots> = map_of n k" using ne by (simp add: update_conv')
    finally show ?thesis .
  qed
qed

lemma map_of_passthrough:
  assumes "map_of (passthrough task_items action n) k = Some v"
  shows "map_of n k = Some v \<or>
     (k \<notin> set [''action'', ''local_action'', ''args'', ''delegate_to''] \<and> k \<noteq> action \<and>
      (k, v) \<in> set task_items)"
  using assms
proof (induction task_items arbitrary: n)
  case Nil
  then show ?case by (simp only: passthrough_Nil) simp
next
  case (Cons kv task_items)
  show ?case
  proof (cases "fst kv \<in> set [''action'', ''local_action'', ''args'', ''delegate_to'']
                 \<or> fst kv = action")
    case True
    with Cons.prems have "map_of (passthrough task_items action n) k = Some v"
      by (simp only: passthrough_Cons [of kv task_items action n] if_True)
    from Cons.IH [OF this] show ?thesis by auto
  next
    case False
    with Cons.prems
    have "map_of (passthrough task_items action (AList.update (fst kv) (snd kv) n)) k = Some v"
      by (simp only: passthrough_Cons [of kv task_items action n] if_False)
    from Cons.IH [OF this]
    consider (upd) "map_of (AList.update (fst kv) (snd kv) n) k = Some v"
      | (item) "k \<notin> set [''action'', ''local_action'', ''args'', ''delegate_to'']"
          "k \<noteq> action" "(k, v) \<in> set task_items"
      by blast
    then show ?thesis
    proof cases
      case upd
      show ?thesis
      proof (cases "k = fst kv")
        case True
        with upd have "v = snd kv" by (simp add: update_conv')
        with True have "(k, v) = kv" by simp
        with True False show ?thesis by auto
      next
        case ne: False
        with upd have "map_of n k = Some v" by (simp add: update_conv')
        then show ?thesis by simp
      qed
    next
      case item
      then show ?thesis by simp
    qed
  qed
qed

lemma map_of_add_back_meta:
  "k \<notin> fst ` set ansible_meta \<Longrightarrow> map_of (add_back_meta s ansible_meta n) k = map_of n k"
  unfolding add_back_meta_def
  by (induction ansible_meta arbitrary: n) (simp_all add: update_conv')

lemma map_of_dict_update_other:
  "k \<notin> fst ` set other \<Longrightarrow> map_of (dict_update d other) k = map_of d k"
  unfolding dict_update_def
  by (induction other arbitrary: d) (simp_all add: update_conv')

lemma has_key_dict_update: "has_key d k \<Longrightarrow> has_key (dict_update d other) k"
  unfolding dict_update_def
  by (induction other arbitrary: d) (simp_all add: has_key_update)

lemma distinct_dict_update:
  "distinct (map fst d) \<Longrightarrow> distinct (map fst (dict_update d other))"
  unfolding dict_update_def
  by (induction other arbitrary: d) (simp_all add: distinct_update)

lemma one_entry:
  "distinct (map fst d) \<Longrightarrow> has_key d k \<Longrightarrow> length (filter (\<lambda>kv. fst kv = k) d) = 1"
proof (induction d)
  case Nil
  then show ?case by (simp add: has_key_def)
next
  case (Cons p d)
  show ?case
  proof (cases "fst p = k")
    case True
    with Cons.prems have "k \<notin> fst ` set d" by auto
    then have "filter (\<lambda>kv. fst kv = k) d = []" by (auto simp: filter_empty_conv)
    with True show ?thesis by simp
  next
    case False
    with Cons show ?thesis by (auto simp: has_key_def)
  qed
qed

lemma map_of_dict_update:
  "map_of (dict_update d other) k =
     (case map_of (rev other) k of None \<Rightarrow> map_of d k | Some x \<Rightarrow> Some x)"
  unfolding dict_update_def
proof (induction other arbitrary: d)
  case Nil
  show ?case by simp
next
  case (Cons kv other)
  show ?case
    by (simp add: Cons.IH update_conv' map_add_def split: option.splits)
qed

lemma rev_delete: "rev (AList.delete k d) = AList.delete k (rev d)"
  by (simp add: AList.delete_eq rev_filter)

lemma map_of_delete_other: "k \<noteq> k' \<Longrightarrow> map_of (AList.delete k' d) k = map_of d k"
  by (simp add: delete_conv')

text \<open>What a successful call has built, read off the definition.\<close>

lemma normalize_task_Inr:
  assumes "normalize_task P task filename cm s = (Inr normalized, s')"
    and "normalize_prepare task cm s = (ansible_action_type, ansible_meta, s1)"
    and "P s1 (objs s1 task) = Inr (action0, arguments0, delegate_to)"
  obtains raw_arguments where
    "normalized =
       add_back_meta s' ansible_meta
         (AList.update ''__ansible_action_type__'' ansible_action_type
           (AList.update ''__file__'' (VStr filename)
             (AList.update ''action'' (VRef (nxt s1))
               (passthrough (objs s1 task)
                  (if has_key arguments0 ''_uses_shell'' then ''shell'' else action0)
                  [(''delegate_to'', delegate_to)]))))"
    and "objs s' (nxt s1) =
       dict_update
         [(''__ansible_module__'',
           VStr (if has_key arguments0 ''_uses_shell'' then ''shell'' else action0)),
          (''__ansible_arguments__'', raw_arguments)]
         (AList.delete ''_raw_params'' (AList.delete ''_uses_shell'' arguments0))"
    and "raw_arguments =
       (case map_of arguments0 ''_raw_params'' of
          None \<Rightarrow> VList []
        | Some (VStr raw) \<Rightarrow> VList (map VStr (split_ws raw))
        | Some v \<Rightarrow> VNull)"
proof -
  let ?arguments1 = "if has_key arguments0 ''_uses_shell''
                     then AList.delete ''_uses_shell'' arguments0 else arguments0"
  have a1: "?arguments1 = AList.delete ''_uses_shell'' arguments0"
    by (simp add: has_key_def delete_absent)
  have r1: "map_of ?arguments1 ''_raw_params'' = map_of arguments0 ''_raw_params''"
    by (simp add: delete_conv')
  show ?thesis
  proof (cases "map_of ?arguments1 ''_raw_params''")
    case None
    then have d: "AList.delete ''_raw_params'' ?arguments1 = ?arguments1"
      by (rule delete_absent)
    show ?thesis
    proof (rule that [of "VList []"])
      show "normalized =
       add_back_meta s' ansible_meta
         (AList.update ''__ansible_action_type__'' ansible_action_type
           (AList.update ''__file__'' (VStr filename)
             (AList.update ''action'' (VRef (nxt s1))
               (passthrough (objs s1 task)
                  (if has_key arguments0 ''_uses_shell'' then ''shell'' else action0)
                  [(''delegate_to'', delegate_to)]))))"
        using assms None
        by (auto simp: normalize_task_def Let_def alloc_def put_def split: if_splits)
      have "objs s' (nxt s1) =
       dict_update
         [(''__ansible_module__'',
           VStr (if has_key arguments0 ''_uses_shell'' then ''shell'' else action0)),
          (''__ansible_arguments__'', VList [])]
         ?arguments1"
        using assms None
        by (auto simp: normalize_task_def Let_def alloc_def put_def split: if_splits)
      then show "objs s' (nxt s1) =
       dict_update
         [(''__ansible_module__'',
           VStr (if has_key arguments0 ''_uses_shell'' then ''shell'' else action0)),
          (''__ansible_arguments__'', VList [])]
         (AList.delete ''_raw_params'' (AList.delete ''_uses_shell'' arguments0))"
        using d a1 by simp
      show "VList [] =
       (case map_of arguments0 ''_raw_params'' of
          None \<Rightarrow> VList []
        | Some (VStr raw) \<Rightarrow> VList (map VStr (split_ws raw))
        | Some v \<Rightarrow> VNull)"
        using None r1 by simp
    qed
  next
    case (Some v)
    with assms obtain raw where v: "v = VStr raw"
      by (cases v) (auto simp: normalize_task_def Let_def alloc_def put_def split: if_splits)
    show ?thesis
    proof (rule that [of "VList (map VStr (split_ws raw))"])
      show "normalized =
       add_back_meta s' ansible_meta
         (AList.update ''__ansible_action_type__'' ansible_action_type
           (AList.update ''__file__'' (VStr filename)
             (AList.update ''action'' (VRef (nxt s1))
               (passthrough (objs s1 task)
                  (if has_key arguments0 ''_uses_shell'' then ''shell'' else action0)
                  [(''delegate_to'', delegate_to)]))))"
        using assms Some v
        by (auto simp: normalize_task_def Let_def alloc_def put_def split: if_splits)
      have "objs s' (nxt s1) =
       dict_update
         [(''__ansible_module__'',
           VStr (if has_key arguments0 ''_uses_shell'' then ''shell'' else action0)),
          (''__ansible_arguments__'', VList (map VStr (split_ws raw)))]
         (AList.delete ''_raw_params'' ?arguments1)"
        using assms Some v
        by (auto simp: normalize_task_def Let_def alloc_def put_def split: if_splits)
      then show "objs s' (nxt s1) =
       dict_update
         [(''__ansible_module__'',
           VStr (if has_key arguments0 ''_uses_shell'' then ''shell'' else action0)),
          (''__ansible_arguments__'', VList (map VStr (split_ws raw)))]
         (AList.delete ''_raw_params'' (AList.delete ''_uses_shell'' arguments0))"
        using a1 by simp
      show "VList (map VStr (split_ws raw)) =
       (case map_of arguments0 ''_raw_params'' of
          None \<Rightarrow> VList []
        | Some (VStr raw) \<Rightarrow> VList (map VStr (split_ws raw))
        | Some v \<Rightarrow> VNull)"
        using Some v r1 by simp
    qed
  qed
qed

text \<open>
  Claim C6, as amended. After a successful call the record's \<^verbatim>\<open>action\<close> entry refers
  to a mapping with exactly one \<^verbatim>\<open>__ansible_module__\<close> field. The field holds the
  resolved module name (\<^verbatim>\<open>shell\<close> when the parser set \<^verbatim>\<open>_uses_shell\<close>, else the
  parser's name) unless the parser's arguments themselves have a key
  \<^verbatim>\<open>__ansible_module__\<close>: line 421 merges the arguments over the mapping. None of
  \<^verbatim>\<open>action\<close>, \<^verbatim>\<open>local_action\<close>, \<^verbatim>\<open>args\<close>, \<^verbatim>\<open>delegate_to\<close> is copied from the
  raw task: \<^verbatim>\<open>local_action\<close> and \<^verbatim>\<open>args\<close> are no keys of the record,
  \<^verbatim>\<open>delegate_to\<close> holds the parser's target and \<^verbatim>\<open>action\<close> the new mapping, and
  every key the normalizer does not set itself is a key of the task outside the four
  reserved ones and the module's name, with the task's value.
\<close>

theorem normalize_task_module_and_reserved_keys:
  assumes "normalize_task P task filename cm s = (Inr normalized, s')"
    and "normalize_prepare task cm s = (ansible_action_type, ansible_meta, s1)"
    and "P s1 (objs s1 task) = Inr (action0, arguments0, delegate_to)"
  shows "(\<exists>r. map_of normalized ''action'' = Some (VRef r) \<and>
              length (filter (\<lambda>kv. fst kv = ''__ansible_module__'') (objs s' r)) = 1 \<and>
              map_of (objs s' r) ''__ansible_module__'' =
                Some (case map_of (rev arguments0) ''__ansible_module__'' of
                        None \<Rightarrow> VStr (if has_key arguments0 ''_uses_shell'' then ''shell''
                                       else action0)
                      | Some x \<Rightarrow> x) \<and>
              (has_key arguments0 ''__ansible_module__'' \<or>
               map_of (objs s' r) ''__ansible_module__'' =
                 Some (VStr (if has_key arguments0 ''_uses_shell'' then ''shell'' else action0)))) \<and>
         map_of normalized ''delegate_to'' = Some delegate_to \<and>
         \<not> has_key normalized ''local_action'' \<and>
         \<not> has_key normalized ''args'' \<and>
         (\<forall>k v. map_of normalized k = Some v \<longrightarrow>
            k \<in> set [''delegate_to'', ''action'', ''__file__'', ''__ansible_action_type__'',
                      ''__line__'', ''__ansible_action_meta__''] \<or>
            (k \<notin> set [''action'', ''local_action'', ''args'', ''delegate_to''] \<and>
             k \<noteq> (if has_key arguments0 ''_uses_shell'' then ''shell'' else action0) \<and>
             (k, v) \<in> set (objs s1 task)))"
proof -
  let ?action = "if has_key arguments0 ''_uses_shell'' then ''shell'' else action0"
  let ?pass = "passthrough (objs s1 task) ?action [(''delegate_to'', delegate_to)]"
  let ?args = "AList.delete ''_raw_params'' (AList.delete ''_uses_shell'' arguments0)"
  from assms obtain raw_arguments where
    n: "normalized =
       add_back_meta s' ansible_meta
         (AList.update ''__ansible_action_type__'' ansible_action_type
           (AList.update ''__file__'' (VStr filename)
             (AList.update ''action'' (VRef (nxt s1)) ?pass)))"
    and a: "objs s' (nxt s1) =
       dict_update
         [(''__ansible_module__'', VStr ?action), (''__ansible_arguments__'', raw_arguments)]
         ?args"
    by (rule normalize_task_Inr)
  have meta: "fst ` set ansible_meta = {''__line__'', ''__file__'', ''__ansible_action_meta__''}"
    using normalize_prepare_store(3) [OF assms(2)] by (metis list.set_map list.simps(15) empty_set)
  have other: "map_of normalized k =
      map_of (AList.update ''__ansible_action_type__'' ansible_action_type
           (AList.update ''__file__'' (VStr filename)
             (AList.update ''action'' (VRef (nxt s1)) ?pass))) k"
    if "k \<notin> {''__line__'', ''__file__'', ''__ansible_action_meta__''}" for k
  proof -
    from that meta have "k \<notin> fst ` set ansible_meta" by simp
    from map_of_add_back_meta [OF this] show ?thesis unfolding n .
  qed
  have act: "map_of normalized ''action'' = Some (VRef (nxt s1))"
    by (simp add: other update_conv')
  have dist: "distinct (map fst (objs s' (nxt s1)))"
    by (simp only: a) (rule distinct_dict_update, simp)
  have key: "has_key (objs s' (nxt s1)) ''__ansible_module__''"
    by (simp only: a) (rule has_key_dict_update, simp add: has_key_def)
  have one: "length (filter (\<lambda>kv. fst kv = ''__ansible_module__'') (objs s' (nxt s1))) = 1"
    using dist key by (rule one_entry)
  have r: "map_of (rev ?args) ''__ansible_module__'' = map_of (rev arguments0) ''__ansible_module__''"
    by (simp add: rev_delete map_of_delete_other)
  have exact: "map_of (objs s' (nxt s1)) ''__ansible_module__'' =
                Some (case map_of (rev arguments0) ''__ansible_module__'' of
                        None \<Rightarrow> VStr ?action | Some x \<Rightarrow> x)"
    unfolding a by (simp add: map_of_dict_update r split: option.splits)
  have val: "map_of (objs s' (nxt s1)) ''__ansible_module__'' = Some (VStr ?action)"
    if "\<not> has_key arguments0 ''__ansible_module__''"
  proof -
    from that have "''__ansible_module__'' \<notin> fst ` set (rev arguments0)"
      by (simp add: has_key_def map_of_eq_None_iff)
    then have "map_of (rev arguments0) ''__ansible_module__'' = None"
      by (simp only: map_of_eq_None_iff) simp
    with exact show ?thesis by simp
  qed
  have deleg: "map_of normalized ''delegate_to'' = Some delegate_to"
    by (simp add: other update_conv' map_of_passthrough_reserved)
  have la: "\<not> has_key normalized ''local_action''"
    by (simp add: has_key_def other update_conv' map_of_passthrough_reserved)
  have ar: "\<not> has_key normalized ''args''"
    by (simp add: has_key_def other update_conv' map_of_passthrough_reserved)
  have pt: "k \<in> set [''delegate_to'', ''action'', ''__file__'', ''__ansible_action_type__'',
                      ''__line__'', ''__ansible_action_meta__''] \<or>
            (k \<notin> set [''action'', ''local_action'', ''args'', ''delegate_to''] \<and>
             k \<noteq> ?action \<and> (k, v) \<in> set (objs s1 task))"
    if kv: "map_of normalized k = Some v" for k v
  proof (cases "k \<in> set [''delegate_to'', ''action'', ''__file__'', ''__ansible_action_type__'',
                      ''__line__'', ''__ansible_action_meta__'']")
    case True
    then show ?thesis by blast
  next
    case False
    then have "k \<notin> {''__line__'', ''__file__'', ''__ansible_action_meta__''}" by simp
    from other [OF this] kv False have "map_of ?pass k = Some v"
      by (simp add: update_conv')
    from map_of_passthrough [OF this] False show ?thesis by auto
  qed
  from act one exact val deleg la ar pt show ?thesis by blast
qed

theorem normalize_task_module_and_reserved_keys_witness:
  "fst (normalize_task debug_parser 0 ''roles/x/tasks/main.yml'' None debug_store) =
     Inr [(''delegate_to'', VNull), (''name'', VStr ''say''), (''action'', VRef 3),
          (''__file__'', VStr ''main.yml''), (''__ansible_action_type__'', VStr ''handler''),
          (''__line__'', VInt 7)] \<and>
   objs (snd (normalize_task debug_parser 0 ''roles/x/tasks/main.yml'' None debug_store)) 3 =
     [(''__ansible_module__'', VStr ''debug''), (''__ansible_arguments__'', VList []),
      (''msg'', VStr ''hello'')] \<and>
   length (filter (\<lambda>kv. fst kv = ''__ansible_module__'')
             (objs (snd (normalize_task debug_parser 0 ''roles/x/tasks/main.yml'' None
                           debug_store)) 3)) = 1"
proof -
  let ?r = "normalize_task debug_parser 0 ''roles/x/tasks/main.yml'' None debug_store"
  let ?p = "normalize_prepare 0 None debug_store"
  have p: "?p = (fst ?p, fst (snd ?p), snd (snd ?p))" by simp
  have q: "debug_parser (snd (snd ?p)) (objs (snd (snd ?p)) 0) =
             Inr (''debug'', [(''msg'', VStr ''hello'')], VNull)"
    by (simp add: normalize_prepare_def debug_store_def debug_parser_def dict_pop_def alloc_def
        put_def Let_def AList.delete_eq dict_get_def)
  have n: "nxt (snd (snd ?p)) = 3"
    by (simp add: normalize_prepare_def debug_store_def dict_pop_def alloc_def put_def Let_def
        AList.delete_eq)
  have f: "fst ?r =
     Inr [(''delegate_to'', VNull), (''name'', VStr ''say''), (''action'', VRef 3),
          (''__file__'', VStr ''main.yml''), (''__ansible_action_type__'', VStr ''handler''),
          (''__line__'', VInt 7)]"
    by (simp add: normalize_task_def normalize_prepare_def debug_store_def debug_parser_def
        dict_pop_def alloc_def put_def Let_def AList.delete_eq passthrough_def add_back_meta_def
        has_key_def dict_get_def dict_update_def later_ansible_error_def)
  have o: "objs (snd ?r) 3 =
     [(''__ansible_module__'', VStr ''debug''), (''__ansible_arguments__'', VList []),
      (''msg'', VStr ''hello'')]"
    by (simp add: normalize_task_def normalize_prepare_def debug_store_def debug_parser_def
        dict_pop_def alloc_def put_def Let_def AList.delete_eq passthrough_def add_back_meta_def
        has_key_def dict_get_def dict_update_def later_ansible_error_def)
  have e: "?r = (Inr [(''delegate_to'', VNull), (''name'', VStr ''say''), (''action'', VRef 3),
          (''__file__'', VStr ''main.yml''), (''__ansible_action_type__'', VStr ''handler''),
          (''__line__'', VInt 7)], snd ?r)"
    using f by (simp add: prod_eq_iff)
  from normalize_task_module_and_reserved_keys [OF e p q]
  have "\<exists>r. map_of [(''delegate_to'', VNull), (''name'', VStr ''say''), (''action'', VRef 3),
          (''__file__'', VStr ''main.yml''), (''__ansible_action_type__'', VStr ''handler''),
          (''__line__'', VInt 7)] ''action'' = Some (VRef r) \<and>
          length (filter (\<lambda>kv. fst kv = ''__ansible_module__'') (objs (snd ?r) r)) = 1"
    by blast
  then have "length (filter (\<lambda>kv. fst kv = ''__ansible_module__'') (objs (snd ?r) 3)) = 1"
    by simp
  with f o show ?thesis by simp
qed

text \<open>
  The claim as stated fails for the task \<^verbatim>\<open>debug: {__ansible_module__: x}\<close>: the
  parser resolves the module \<^verbatim>\<open>debug\<close>, and the record's \<^verbatim>\<open>__ansible_module__\<close>
  field is the argument \<^verbatim>\<open>x\<close>.
\<close>

theorem normalize_task_module_overwritten:
  "fst (normalize_task debug_parser 0 ''f.yml'' None clash_store) =
     Inr [(''delegate_to'', VNull), (''action'', VRef 3), (''__file__'', VStr ''f.yml''),
          (''__ansible_action_type__'', VStr ''task''), (''__line__'', VInt 2)] \<and>
   objs (snd (normalize_task debug_parser 0 ''f.yml'' None clash_store)) 3 =
     [(''__ansible_module__'', VStr ''x''), (''__ansible_arguments__'', VList [])] \<and>
   debug_parser (snd (snd (normalize_prepare 0 None clash_store)))
                (objs (snd (snd (normalize_prepare 0 None clash_store))) 0) =
     Inr (''debug'', [(''__ansible_module__'', VStr ''x'')], VNull)"
  by (simp add: normalize_task_def normalize_prepare_def clash_store_def debug_parser_def
      dict_pop_def alloc_def put_def Let_def AList.delete_eq passthrough_def add_back_meta_def
      has_key_def dict_get_def dict_update_def later_ansible_error_def)

section \<open>Properties of the dependency resolver\<close>

text \<open>
  C7. For every pair of a path and a kind whose path does not exist, and whatever the
  playbook directory and the directories registered so far, \<^verbatim>\<open>find_children\<close> returns
  the empty list: it raises nothing, and registers nothing.
\<close>

theorem find_children_missing_path:
  assumes "\<not> path_exists E path"
  shows "find_children E (path, kind) playbook_dir reg = (Inr [], reg)"
  using assms by (simp add: find_children_def)

theorem find_children_missing_path_witness:
  "\<not> path_exists site_env ''/pb/absent.yml'' \<and>
   find_children site_env (''/pb/absent.yml'', ''playbook'') ''/pb'' [''/lib''] =
     (Inr [], [''/lib''])"
  using find_children_missing_path [of site_env "''/pb/absent.yml''" "''playbook''" "''/pb''"
      "[''/lib'']"]
  by (simp add: site_env_def)






lemma split_on_no_sep: "sep \<notin> set s \<Longrightarrow> split_on sep s = [s]"
  by (induction s) auto

lemma tokenize_args_one:
  "CHR ''='' \<notin> set s \<Longrightarrow> tokenize_args [s] ([], [], False) = ([s], [], True)"
  by simp

lemma tokenize_include:
  assumes "CHR '' '' \<notin> set s" and "CHR ''='' \<notin> set s"
  shows "tokenize (''include: '' @ s) = Inr (''include'', [s], [])"
    and "tokenize (''import_playbook: '' @ s) = Inr (''import_playbook'', [s], [])"
  using assms
  by (simp_all add: tokenize_def lstrip_def is_space_def split_on_no_sep tokenize_args_one
      del: tokenize_args.simps)

text \<open>
  C5, as amended. The retry is made for a play's \<^verbatim>\<open>include\<close> and
  \<^verbatim>\<open>import_playbook\<close> entries: for a value of one word without \<^verbatim>\<open>=\<close>, when the
  file resolved against the current directory does not exist and the name of the
  current directory does not end in \<^verbatim>\<open>tasks\<close>, the edge is the path resolved against
  \<^verbatim>\<open>basedir/../tasks\<close>, else the path resolved against the current directory. An
  \<^verbatim>\<open>include_tasks\<close> entry of a task list gives the path resolved against the current
  directory, whether the file exists or not.
\<close>

theorem include_children_retry:
  assumes "k = ''include'' \<or> k = ''import_playbook''"
    and "CHR '' '' \<notin> set s"
    and "CHR ''='' \<notin> set s"
  shows "include_children E basedir k (YStr s) parent_type =
           Inr [\<lparr>e_path = (if \<not> path_exists E (dwim E basedir s) \<and> \<not> ends_with basedir ''tasks''
                             then dwim E (os_path_join basedir [''..'', ''tasks'']) s
                             else dwim E basedir s),
                 e_type = parent_type\<rparr>] \<and>
         taskshandlers_children E basedir sec (YList [YDict [(''include_tasks'', YStr t)]])
             parent_type reg =
           (Inr [\<lparr>e_path = dwim E basedir t,
                  e_type = (if parent_type = ''playbook'' then sec else parent_type)\<rparr>], reg)"
proof
  from assms(1) show "include_children E basedir k (YStr s) parent_type =
           Inr [\<lparr>e_path = (if \<not> path_exists E (dwim E basedir s) \<and> \<not> ends_with basedir ''tasks''
                             then dwim E (os_path_join basedir [''..'', ''tasks'']) s
                             else dwim E basedir s),
                 e_type = parent_type\<rparr>]"
  proof
    assume "k = ''include''"
    with tokenize_include(1) [OF assms(2,3)] show ?thesis
      by (simp add: include_children_def fstr_def path_dwim_def)
  next
    assume "k = ''import_playbook''"
    with tokenize_include(2) [OF assms(2,3)] show ?thesis
      by (simp add: include_children_def fstr_def path_dwim_def)
  qed
next
  show "taskshandlers_children E basedir sec (YList [YDict [(''include_tasks'', YStr t)]])
             parent_type reg =
           (Inr [\<lparr>e_path = dwim E basedir t,
                  e_type = (if parent_type = ''playbook'' then sec else parent_type)\<rparr>], reg)"
    by (simp add: th_keys_def has_key_y_def append_children_def path_dwim_def)
qed

theorem include_children_retry_witness:
  "\<not> path_exists site_env ''/pb/sub.yml'' \<and> \<not> ends_with ''/pb'' ''tasks'' \<and>
   include_children site_env ''/pb'' ''include'' (YStr ''sub.yml'') ''playbook'' =
     Inr [\<lparr>e_path = ''/pb/../tasks/sub.yml'', e_type = ''playbook''\<rparr>] \<and>
   include_children site_env ''/pb/tasks'' ''import_playbook'' (YStr ''sub.yml'') ''playbook'' =
     Inr [\<lparr>e_path = ''/pb/tasks/sub.yml'', e_type = ''playbook''\<rparr>] \<and>
   taskshandlers_children site_env ''/pb'' ''handlers''
       (YList [YDict [(''include_tasks'', YStr ''sub.yml'')]]) ''playbook'' [] =
     (Inr [\<lparr>e_path = ''/pb/sub.yml'', e_type = ''handlers''\<rparr>], [])"
  using include_children_retry [of "''include''" "''sub.yml''" site_env "''/pb''" "''playbook''"
      "''handlers''" "''sub.yml''" "[]"]
    include_children_retry [of "''import_playbook''" "''sub.yml''" site_env "''/pb/tasks''"
      "''playbook''" "''handlers''" "''sub.yml''" "[]"]
  by (simp add: site_env_def os_path_join_def join2_def ends_with_def)

text \<open>
  C5 as stated fails for the play \<^verbatim>\<open>tasks: [include_tasks: sub.yml]\<close> of a playbook
  in \<^verbatim>\<open>/pb\<close>: \<^verbatim>\<open>/pb/sub.yml\<close> does not exist, \<^verbatim>\<open>/pb\<close> does not end in
  \<^verbatim>\<open>tasks\<close>, the sibling \<^verbatim>\<open>/pb/../tasks/sub.yml\<close> exists, and the edge is
  \<^verbatim>\<open>/pb/sub.yml\<close>.
\<close>

theorem include_tasks_not_retried:
  "play_children site_env ''/pb''
       (''tasks'', YList [YDict [(''include_tasks'', YStr ''sub.yml'')]]) ''playbook'' [] =
     (Inr [\<lparr>e_path = ''/pb/sub.yml'', e_type = ''tasks''\<rparr>], []) \<and>
   \<not> path_exists site_env ''/pb/sub.yml'' \<and>
   \<not> ends_with ''/pb'' ''tasks'' \<and>
   path_exists site_env (dwim site_env (os_path_join ''/pb'' [''..'', ''tasks'']) ''sub.yml'')"
  by (simp add: play_children_def site_env_def load_library_if_exists_def os_path_join_def
      join2_def ends_with_def delegate_map_def template_def th_keys_def has_key_y_def
      append_children_def path_dwim_def)

lemma roles_loop_skipped:
  assumes "has_key_y d ''role'' \<or> has_key_y d ''name''"
    and "map_of d ''tags'' = Some tags"
    and "in_y ''skip_ansible_later'' tags = Inr True"
  shows "roles_loop E basedir main (YDict d # rest) results reg =
           roles_loop E basedir main rest results reg"
  using assms by simp

text \<open>
  C2. The playbook \<^verbatim>\<open>/pb/site.yml\<close> exists and its one play carries
  \<^verbatim>\<open>roles: [{role: myrole, tags: [skip_ansible_later]}]\<close>. \<^verbatim>\<open>find_children\<close> raises
  \<^verbatim>\<open>TypeError\<close> on it: line 176 calls \<^verbatim>\<open>play_children\<close> with four arguments.
  Called with its three, \<^verbatim>\<open>play_children\<close> gives no edge for the item of the roles.
\<close>

theorem find_children_skipped_role_raises:
  "path_exists site_env ''/pb/site.yml'' \<and>
   load_from_file site_env ''/pb/site.yml'' =
     Inr (YList [YDict [(''hosts'', YStr ''all''),
                        (''roles'', YList [YDict [(''role'', YStr ''myrole''),
                                                  (''tags'', YList [YStr ''skip_ansible_later''])]])]]) \<and>
   find_children site_env (''/pb/site.yml'', ''playbook'') ''/pb'' [] = (Inl TypeError, []) \<and>
   play_children site_env ''/pb''
       (''roles'', YList [YDict [(''role'', YStr ''myrole''),
                                 (''tags'', YList [YStr ''skip_ansible_later''])]])
       ''playbook'' [] =
     (Inr [], [])"
  by (simp add: find_children_def site_env_def site_yml_def playbook_items_def
      call_play_children_def play_children_def load_library_if_exists_def os_path_join_def
      join2_def ends_with_def delegate_map_def template_def roles_children_def has_key_y_def)

end
